theory Spec2Isabelle
  imports Main "HOL-Library.Sublist"
begin

section \<open>JSON text\<close>

text \<open>
  The storefront keeps its data in the browser's local storage as JSON text. The
  components of this development call \<^verbatim>\<open>JSON.parse\<close> and \<^verbatim>\<open>JSON.stringify\<close> on it; both
  are modelled here so that the components can be run on concrete storage contents.

  A JavaScript string is a \<^typ>\<open>string\<close> whose characters are the code units 0 to 255.
  A JavaScript \<^verbatim>\<open>number\<close> is an \<^typ>\<open>int\<close>: the whole numbers, on which JavaScript's
  \<^verbatim>\<open>+\<close> is exact below \<open>2^53\<close>. A text that needs a value outside these types (a number
  with a fractional part, a \<^verbatim>\<open>\u\<close> escape above 255) is answered with \<open>OutsideModel\<close>:
  the model makes no statement about it.
\<close>

type_synonym number = int

datatype error = SyntaxError | TypeError | OutsideModel

datatype json =
    JNull
  | JBool bool
  | JNumber number
  | JString string
  | JArray "json list"
  | JObject "(string \<times> json) list"

subsection \<open>Strings and numbers of the JSON grammar\<close>

definition is_digit :: "char \<Rightarrow> bool" where
  "is_digit c = (48 \<le> (of_char c :: nat) \<and> (of_char c :: nat) \<le> 57)"

definition digit_val :: "char \<Rightarrow> nat" where
  "digit_val c = of_char c - 48"

definition nat_of_digits :: "string \<Rightarrow> nat" where
  "nat_of_digits ds = foldl (\<lambda>n c. 10 * n + digit_val c) 0 ds"

definition hex_val :: "char \<Rightarrow> nat option" where
  "hex_val c =
     (let n = (of_char c :: nat) in
      if 48 \<le> n \<and> n \<le> 57 then Some (n - 48)
      else if 65 \<le> n \<and> n \<le> 70 then Some (n - 55)
      else if 97 \<le> n \<and> n \<le> 102 then Some (n - 87)
      else None)"

definition hex4 :: "string \<Rightarrow> nat option" where
  "hex4 s =
     (case s of
        a # b # c # d # _ \<Rightarrow>
          (case (hex_val a, hex_val b, hex_val c, hex_val d) of
             (Some x, Some y, Some z, Some w) \<Rightarrow> Some (((x * 16 + y) * 16 + z) * 16 + w)
           | _ \<Rightarrow> None)
      | _ \<Rightarrow> None)"

definition unescape :: "char \<Rightarrow> char option" where
  "unescape e =
     (if e = CHR 0x22 then Some (CHR 0x22)
      else if e = CHR 0x5C then Some (CHR 0x5C)
      else if e = CHR ''/'' then Some (CHR ''/'')
      else if e = CHR ''b'' then Some (CHR 0x08)
      else if e = CHR ''f'' then Some (CHR 0x0C)
      else if e = CHR ''n'' then Some (CHR 0x0A)
      else if e = CHR ''r'' then Some (CHR 0x0D)
      else if e = CHR ''t'' then Some (CHR 0x09)
      else None)"

definition cons_char :: "char \<Rightarrow> error + string \<times> string \<Rightarrow> error + string \<times> string" where
  "cons_char c r = (case r of Inl e \<Rightarrow> Inl e | Inr (s, rest) \<Rightarrow> Inr (c # s, rest))"

text \<open>
  \<open>scan_string\<close> reads a string literal after its opening quote and returns its value with
  the text after the closing quote.
\<close>

fun scan_string :: "string \<Rightarrow> error + string \<times> string" where
  "scan_string [] = Inl SyntaxError"
| "scan_string (c # cs) =
     (if c = CHR 0x22 then Inr ([], cs)
      else if c = CHR 0x5C then
        (case cs of
           [] \<Rightarrow> Inl SyntaxError
         | e # cs' \<Rightarrow>
             if e = CHR ''u'' then
               (case hex4 cs' of
                  None \<Rightarrow> Inl SyntaxError
                | Some n \<Rightarrow>
                    if n < 256 then cons_char (char_of n) (scan_string (drop 4 cs'))
                    else Inl OutsideModel)
             else
               (case unescape e of
                  None \<Rightarrow> Inl SyntaxError
                | Some ch \<Rightarrow> cons_char ch (scan_string cs')))
      else if (of_char c :: nat) < 32 then Inl SyntaxError
      else cons_char c (scan_string cs))"

text \<open>
  A number is \<^verbatim>\<open>-? (0 | [1-9][0-9]*) (. [0-9]+)? ([eE] [+-]? [0-9]+)?\<close>. Its value is kept
  when it is whole.
\<close>

definition lex_sign :: "string \<Rightarrow> bool \<times> string" where
  "lex_sign s =
     (case s of [] \<Rightarrow> (False, s) | c # cs \<Rightarrow> if c = CHR ''-'' then (True, cs) else (False, s))"

definition lex_int :: "string \<Rightarrow> (string \<times> string) option" where
  "lex_int s =
     (let ds = takeWhile is_digit s in
      if ds = [] \<or> (hd ds = CHR ''0'' \<and> tl ds \<noteq> []) then None
      else Some (ds, dropWhile is_digit s))"

definition lex_frac :: "string \<Rightarrow> (string \<times> string) option" where
  "lex_frac s =
     (case s of
        [] \<Rightarrow> Some ([], s)
      | c # cs \<Rightarrow>
          if c = CHR ''.'' then
            (let ds = takeWhile is_digit cs in
             if ds = [] then None else Some (ds, dropWhile is_digit cs))
          else Some ([], s))"

definition lex_exp :: "string \<Rightarrow> (int \<times> string) option" where
  "lex_exp s =
     (case s of
        [] \<Rightarrow> Some (0, s)
      | c # cs \<Rightarrow>
          if c = CHR ''e'' \<or> c = CHR ''E'' then
            (let (neg, r) =
               (case cs of
                  [] \<Rightarrow> (False, cs)
                | d # ds \<Rightarrow>
                    if d = CHR ''-'' then (True, ds)
                    else if d = CHR ''+'' then (False, ds)
                    else (False, cs));
                 ds = takeWhile is_digit r in
             if ds = [] then None
             else Some ((if neg then - int (nat_of_digits ds) else int (nat_of_digits ds)),
                        dropWhile is_digit r))
          else Some (0, s))"

definition whole :: "int \<Rightarrow> int \<Rightarrow> number option" where
  "whole m e =
     (if 0 \<le> e then Some (m * 10 ^ nat e)
      else if m mod 10 ^ nat (- e) = 0 then Some (m div 10 ^ nat (- e))
      else None)"

definition lex_number :: "string \<Rightarrow> error + number \<times> string" where
  "lex_number s =
     (let (neg, s1) = lex_sign s in
      case lex_int s1 of
        None \<Rightarrow> Inl SyntaxError
      | Some (ip, s2) \<Rightarrow>
          (case lex_frac s2 of
             None \<Rightarrow> Inl SyntaxError
           | Some (fp, s3) \<Rightarrow>
               (case lex_exp s3 of
                  None \<Rightarrow> Inl SyntaxError
                | Some (ex, s4) \<Rightarrow>
                    (case whole (int (nat_of_digits (ip @ fp))) (ex - int (length fp)) of
                       None \<Rightarrow> Inl OutsideModel
                     | Some n \<Rightarrow> Inr (if neg then - n else n, s4)))))"

subsection \<open>Tokens\<close>

datatype token = LBrace | RBrace | LBracket | RBracket | Comma | Colon | Value json

definition is_json_ws :: "char \<Rightarrow> bool" where
  "is_json_ws c = (c = CHR '' '' \<or> c = CHR 0x09 \<or> c = CHR 0x0A \<or> c = CHR 0x0D)"

definition cons_token :: "token \<Rightarrow> error + token list \<Rightarrow> error + token list" where
  "cons_token t r = (case r of Inl e \<Rightarrow> Inl e | Inr ts \<Rightarrow> Inr (t # ts))"

function tokenize :: "string \<Rightarrow> error + token list" where
  "tokenize [] = Inr []"
| "tokenize (c # cs) =
     (if is_json_ws c then tokenize cs
      else if c = CHR ''{'' then cons_token LBrace (tokenize cs)
      else if c = CHR ''}'' then cons_token RBrace (tokenize cs)
      else if c = CHR ''['' then cons_token LBracket (tokenize cs)
      else if c = CHR '']'' then cons_token RBracket (tokenize cs)
      else if c = CHR '','' then cons_token Comma (tokenize cs)
      else if c = CHR '':'' then cons_token Colon (tokenize cs)
      else if c = CHR 0x22 then
        (case scan_string cs of
           Inl e \<Rightarrow> Inl e
         | Inr (s, rest) \<Rightarrow> cons_token (Value (JString s)) (tokenize rest))
      else if is_digit c \<or> c = CHR ''-'' then
        (case lex_number (c # cs) of
           Inl e \<Rightarrow> Inl e
         | Inr (n, rest) \<Rightarrow> cons_token (Value (JNumber n)) (tokenize rest))
      else if take 4 (c # cs) = ''true'' then cons_token (Value (JBool True)) (tokenize (drop 3 cs))
      else if take 5 (c # cs) = ''false'' then cons_token (Value (JBool False)) (tokenize (drop 4 cs))
      else if take 4 (c # cs) = ''null'' then cons_token (Value JNull) (tokenize (drop 3 cs))
      else Inl SyntaxError)"
  by pat_completeness auto
termination
proof -
  have cons: "\<exists>s'. r = Inr (s', rest)" if "cons_char c r = Inr (s, rest)" for c r s rest
    using that by (auto simp: cons_char_def split: sum.splits)
  have scan: "length rest < Suc (length cs)" if "scan_string cs = Inr (s, rest)" for cs s rest
    using that
  proof (induction cs arbitrary: s rule: scan_string.induct)
    case 1
    then show ?case by simp
  next
    case (2 c cs)
    show ?case
    proof (cases "c = CHR 0x22")
      case True
      with "2.prems" show ?thesis by simp
    next
      case unquoted: False
      show ?thesis
      proof (cases "c = CHR 0x5C")
        case True
        with unquoted "2.prems" "2.IH"(1,2) show ?thesis
          by (fastforce split: list.splits option.splits if_splits dest!: cons)
      next
        case False
        with unquoted "2.prems" "2.IH"(3) show ?thesis
          by (fastforce split: if_splits dest!: cons)
      qed
    qed
  qed
  have digits: "length s = length (takeWhile is_digit s) + length (dropWhile is_digit s)" for s
    by (metis length_append takeWhile_dropWhile_id)
  have int: "length r < length s" if "lex_int s = Some (ip, r)" for s ip r
  proof -
    from that have "takeWhile is_digit s \<noteq> []" and "r = dropWhile is_digit s"
      by (auto simp: lex_int_def Let_def split: if_splits)
    with digits [of s] show ?thesis by simp
  qed
  have frac: "length r \<le> length s" if "lex_frac s = Some (fp, r)" for s fp r
    using that
    by (auto simp: lex_frac_def Let_def le_SucI length_dropWhile_le split: list.splits if_splits)
  have exp: "length r \<le> length s" if "lex_exp s = Some (e, r)" for s e r
    using that
    by (auto simp: lex_exp_def Let_def le_SucI length_dropWhile_le
             split: list.splits if_splits prod.splits
             intro: le_trans [OF length_dropWhile_le])
  have sign: "length r \<le> length s" if "lex_sign s = (neg, r)" for s neg r
    using that by (auto simp: lex_sign_def split: list.splits if_splits)
  have num: "length rest < length s" if a: "lex_number s = Inr (n, rest)" for s n rest
  proof -
    obtain neg s1 where s1: "lex_sign s = (neg, s1)" by (cases "lex_sign s")
    from a s1 obtain ip s2 where s2: "lex_int s1 = Some (ip, s2)"
      by (auto simp: lex_number_def split: option.splits)
    from a s1 s2 obtain fp s3 where s3: "lex_frac s2 = Some (fp, s3)"
      by (auto simp: lex_number_def split: option.splits)
    from a s1 s2 s3 obtain ex where s4: "lex_exp s3 = Some (ex, rest)"
      by (auto simp: lex_number_def split: option.splits)
    from sign [OF s1] int [OF s2] frac [OF s3] exp [OF s4] show ?thesis by simp
  qed
  show ?thesis
  proof (relation "measure length", goal_cases)
    case 1
    show ?case by simp
  next
    case (9 c cs x s rest)
    then show ?case using scan [of cs s rest] by simp
  next
    case (10 c cs x n rest)
    then show ?case using num [of "c # cs" n rest] by simp
  qed simp_all
qed

declare tokenize.simps [simp del]

subsection \<open>JSON.parse\<close>

text \<open>
  The grammar of values is run over the tokens with an explicit stack of the arrays and
  objects that are still open. \<open>expect\<close> says which tokens may come next.
\<close>

datatype frame =
    InArray "json list"
  | InObject "(string \<times> json) list"
  | InMember "(string \<times> json) list" string

datatype expect =
    ExpValue | ExpValueOrClose | ExpKeyOrClose | ExpKey | ExpColon | ExpCommaOrClose | ExpEnd json

definition push_value :: "json \<Rightarrow> frame list \<Rightarrow> (frame list \<times> expect) option" where
  "push_value v stack =
     (case stack of
        [] \<Rightarrow> Some ([], ExpEnd v)
      | InArray es # fs \<Rightarrow> Some (InArray (v # es) # fs, ExpCommaOrClose)
      | InMember ms k # fs \<Rightarrow> Some (InObject ((k, v) # ms) # fs, ExpCommaOrClose)
      | InObject ms # fs \<Rightarrow> None)"

definition start_value :: "frame list \<Rightarrow> token \<Rightarrow> (frame list \<times> expect) option" where
  "start_value stack t =
     (case t of
        Value v \<Rightarrow> push_value v stack
      | LBracket \<Rightarrow> Some (InArray [] # stack, ExpValueOrClose)
      | LBrace \<Rightarrow> Some (InObject [] # stack, ExpKeyOrClose)
      | _ \<Rightarrow> None)"

definition start_member :: "frame list \<Rightarrow> token \<Rightarrow> (frame list \<times> expect) option" where
  "start_member stack t =
     (case (t, stack) of
        (Value (JString k), InObject ms # fs) \<Rightarrow> Some (InMember ms k # fs, ExpColon)
      | _ \<Rightarrow> None)"

definition close_container :: "frame list \<Rightarrow> token \<Rightarrow> (frame list \<times> expect) option" where
  "close_container stack t =
     (case (t, stack) of
        (RBracket, InArray es # fs) \<Rightarrow> push_value (JArray (rev es)) fs
      | (RBrace, InObject ms # fs) \<Rightarrow> push_value (JObject (rev ms)) fs
      | _ \<Rightarrow> None)"

definition parse_step :: "frame list \<times> expect \<Rightarrow> token \<Rightarrow> (frame list \<times> expect) option" where
  "parse_step st t =
     (case st of (stack, ex) \<Rightarrow>
        (case ex of
           ExpValue \<Rightarrow> start_value stack t
         | ExpValueOrClose \<Rightarrow> if t = RBracket then close_container stack t else start_value stack t
         | ExpKeyOrClose \<Rightarrow> if t = RBrace then close_container stack t else start_member stack t
         | ExpKey \<Rightarrow> start_member stack t
         | ExpColon \<Rightarrow> if t = Colon then Some (stack, ExpValue) else None
         | ExpCommaOrClose \<Rightarrow>
             if t = Comma then
               (case stack of
                  InArray es # fs \<Rightarrow> Some (stack, ExpValue)
                | InObject ms # fs \<Rightarrow> Some (stack, ExpKey)
                | _ \<Rightarrow> None)
             else close_container stack t
         | ExpEnd v \<Rightarrow> None))"

fun parse_tokens :: "token list \<Rightarrow> frame list \<times> expect \<Rightarrow> (frame list \<times> expect) option" where
  "parse_tokens [] st = Some st"
| "parse_tokens (t # ts) st =
     (case parse_step st t of None \<Rightarrow> None | Some st' \<Rightarrow> parse_tokens ts st')"

definition JSON_parse :: "string \<Rightarrow> error + json" where
  "JSON_parse text =
     (case tokenize text of
        Inl e \<Rightarrow> Inl e
      | Inr ts \<Rightarrow>
          (case parse_tokens ts ([], ExpValue) of
             Some ([], ExpEnd v) \<Rightarrow> Inr v
           | _ \<Rightarrow> Inl SyntaxError))"

subsection \<open>JSON.stringify\<close>

definition digit_char :: "nat \<Rightarrow> char" where
  "digit_char d = char_of (48 + d)"

fun show_nat :: "nat \<Rightarrow> string" where
  "show_nat n = (if n < 10 then [digit_char n] else show_nat (n div 10) @ [digit_char (n mod 10)])"

declare show_nat.simps [simp del]

definition show_number :: "number \<Rightarrow> string" where
  "show_number n = (if n < 0 then CHR ''-'' # show_nat (nat (- n)) else show_nat (nat n))"

definition hex_char :: "nat \<Rightarrow> char" where
  "hex_char d = (if d < 10 then char_of (48 + d) else char_of (87 + d))"

definition escape :: "char \<Rightarrow> string" where
  "escape c =
     (if c = CHR 0x22 then [CHR 0x5C, CHR 0x22]
      else if c = CHR 0x5C then [CHR 0x5C, CHR 0x5C]
      else if c = CHR 0x08 then [CHR 0x5C, CHR ''b'']
      else if c = CHR 0x0C then [CHR 0x5C, CHR ''f'']
      else if c = CHR 0x0A then [CHR 0x5C, CHR ''n'']
      else if c = CHR 0x0D then [CHR 0x5C, CHR ''r'']
      else if c = CHR 0x09 then [CHR 0x5C, CHR ''t'']
      else if (of_char c :: nat) < 32 then
        [CHR 0x5C, CHR ''u'', CHR ''0'', CHR ''0'',
         hex_char ((of_char c :: nat) div 16), hex_char ((of_char c :: nat) mod 16)]
      else [c])"

definition quote :: "string \<Rightarrow> string" where
  "quote s = CHR 0x22 # concat (map escape s) @ [CHR 0x22]"

fun join :: "'a \<Rightarrow> 'a list list \<Rightarrow> 'a list" where
  "join s [] = []"
| "join s [x] = x"
| "join s (x # y # ys) = x @ s # join s (y # ys)"

fun JSON_stringify :: "json \<Rightarrow> string" where
  "JSON_stringify JNull = ''null''"
| "JSON_stringify (JBool b) = (if b then ''true'' else ''false'')"
| "JSON_stringify (JNumber n) = show_number n"
| "JSON_stringify (JString s) = quote s"
| "JSON_stringify (JArray vs) = CHR ''['' # join (CHR '','') (map JSON_stringify vs) @ '']''"
| "JSON_stringify (JObject ms) =
     CHR ''{'' # join (CHR '','')
                  (map (\<lambda>(k, v). quote k @ CHR '':'' # JSON_stringify v) ms) @ ''}''"

subsection \<open>The tokens of a value\<close>

text \<open>
  \<open>tokens_of v\<close> are the tokens of the text that \<^verbatim>\<open>JSON.stringify\<close> writes for \<open>v\<close>. The text
  of a value is read back as these tokens when the text after it \<open>closes\<close> the value: it
  is empty or starts with a comma or a closing bracket or brace.
\<close>

fun tokens_of :: "json \<Rightarrow> token list" where
  "tokens_of (JArray vs) = LBracket # join Comma (map tokens_of vs) @ [RBracket]"
| "tokens_of (JObject ms) =
     LBrace # join Comma (map (\<lambda>(k, v). Value (JString k) # Colon # tokens_of v) ms) @ [RBrace]"
| "tokens_of v = [Value v]"

definition prepend :: "token list \<Rightarrow> error + token list \<Rightarrow> error + token list" where
  "prepend ts r = (case r of Inl e \<Rightarrow> Inl e | Inr us \<Rightarrow> Inr (ts @ us))"

definition closes :: "string \<Rightarrow> bool" where
  "closes rest = (rest = [] \<or> hd rest = CHR '','' \<or> hd rest = CHR '']'' \<or> hd rest = CHR ''}'')"

definition value_next :: "expect \<Rightarrow> bool" where
  "value_next ex = (ex = ExpValue \<or> ex = ExpValueOrClose)"

definition key_next :: "expect \<Rightarrow> bool" where
  "key_next ex = (ex = ExpKey \<or> ex = ExpKeyOrClose)"

section \<open>Strings and local storage\<close>

text \<open>
  Local storage maps keys to strings. \<^verbatim>\<open>getItem\<close> answers \<^verbatim>\<open>null\<close> (here \<open>None\<close>) for a
  key that holds nothing. \<open>or_else v d\<close> is \<^verbatim>\<open>v || d\<close> on such an answer: \<^verbatim>\<open>null\<close> and the
  empty string are falsy.
\<close>

type_synonym storage = "string \<rightharpoonup> string"

definition getItem :: "storage \<Rightarrow> string \<Rightarrow> string option" where
  "getItem ls key = ls key"

definition setItem :: "storage \<Rightarrow> string \<Rightarrow> string \<Rightarrow> storage" where
  "setItem ls key v = ls(key \<mapsto> v)"

definition or_else :: "string option \<Rightarrow> string \<Rightarrow> string" where
  "or_else v d = (case v of None \<Rightarrow> d | Some s \<Rightarrow> if s = [] then d else s)"

text \<open>
  \<^verbatim>\<open>trim\<close> removes white space and line terminators at both ends; among the code units
  0 to 255 these are 9 to 13, 32 and 160. \<^verbatim>\<open>toLowerCase\<close> maps \<^verbatim>\<open>A\<close> to \<^verbatim>\<open>Z\<close> and the
  capital letters 192 to 222 (without the multiplication sign, 215) to their small
  letters. \<^verbatim>\<open>s.includes(t)\<close> holds when \<open>t\<close> occurs in \<open>s\<close> as a run of consecutive
  characters.
\<close>

definition is_space :: "char \<Rightarrow> bool" where
  "is_space c = ((of_char c :: nat) \<in> {9, 10, 11, 12, 13, 32, 160})"

definition trim :: "string \<Rightarrow> string" where
  "trim s = rev (dropWhile is_space (rev (dropWhile is_space s)))"

definition lower_char :: "char \<Rightarrow> char" where
  "lower_char c =
     (let n = (of_char c :: nat) in
      if (65 \<le> n \<and> n \<le> 90) \<or> (192 \<le> n \<and> n \<le> 222 \<and> n \<noteq> 215) then char_of (n + 32)
      else c)"

definition toLowerCase :: "string \<Rightarrow> string" where
  "toLowerCase s = map lower_char s"

fun str_includes :: "string \<Rightarrow> string \<Rightarrow> bool" where
  "str_includes [] t = (t = [])"
| "str_includes (c # cs) t = (prefix t (c # cs) \<or> str_includes cs t)"

section \<open>Entities\<close>

text \<open>
  The interfaces of the components. \<open>CartItem\<close> is the interface of CartModal; \<open>NewItem\<close>
  is the argument of \<^verbatim>\<open>window.addToCart\<close> declared in Navbar, whose quantity is optional.
  \<open>Order\<close> is declared twice, in AllOrders with items of type \<^verbatim>\<open>any[]\<close> and in
  UserProfile with items of type \<^verbatim>\<open>OrderItem[]\<close>: the record takes the type of the items as
  a parameter. \<open>User\<close> is the user object of the authentication context, with the fields
  UserProfile reads.
\<close>

record CartItem =
  id :: string
  name :: string
  price :: number
  quantity :: number
  image :: string

record NewItem =
  id :: string
  name :: string
  price :: number
  quantity :: "number option"
  image :: string

record OrderItem =
  id :: string
  name :: string
  price :: number
  quantity :: number
  image :: string

record 'i Order =
  id :: string
  items :: "'i list"
  total :: number
  date :: string
  status :: string

record CustomRequest =
  id :: string
  userId :: string
  userEmail :: string
  userName :: string
  title :: string
  description :: string
  quantity :: number
  budget :: number
  phone :: string
  image :: "string option"
  status :: string
  date :: string

record User =
  id :: string
  name :: string
  email :: string
  role :: string

subsection \<open>Records as JSON values\<close>

text \<open>
  TypeScript's declarations are erased when the program runs: \<^verbatim>\<open>JSON.parse\<close> returns
  whatever the text denotes. The components are modelled on the values of their declared
  types, so a parsed value is read at the declared type (\<open>JSON_parse_as\<close>): an object
  with the declared members, each of its declared type, where a member given twice has
  its last value and further members are ignored. A text that is JSON but not of the
  declared type is answered with \<open>OutsideModel\<close>.
\<close>

definition field :: "(string \<times> json) list \<Rightarrow> string \<Rightarrow> json option" where
  "field ms key = map_of (rev ms) key"

definition as_string :: "json \<Rightarrow> string option" where
  "as_string v = (case v of JString s \<Rightarrow> Some s | _ \<Rightarrow> None)"

definition as_number :: "json \<Rightarrow> number option" where
  "as_number v = (case v of JNumber n \<Rightarrow> Some n | _ \<Rightarrow> None)"

definition as_nullable_string :: "json \<Rightarrow> string option option" where
  "as_nullable_string v =
     (case v of JString s \<Rightarrow> Some (Some s) | JNull \<Rightarrow> Some None | _ \<Rightarrow> None)"

definition as_array :: "(json \<Rightarrow> 'a option) \<Rightarrow> json \<Rightarrow> 'a list option" where
  "as_array elem v = (case v of JArray vs \<Rightarrow> those (map elem vs) | _ \<Rightarrow> None)"

definition as_object :: "json \<Rightarrow> (string \<times> json) list option" where
  "as_object v = (case v of JObject ms \<Rightarrow> Some ms | _ \<Rightarrow> None)"

definition as_CartItem :: "json \<Rightarrow> CartItem option" where
  "as_CartItem v =
     Option.bind (as_object v) (\<lambda>ms.
     Option.bind (Option.bind (field ms ''id'') as_string) (\<lambda>i.
     Option.bind (Option.bind (field ms ''name'') as_string) (\<lambda>n.
     Option.bind (Option.bind (field ms ''price'') as_number) (\<lambda>p.
     Option.bind (Option.bind (field ms ''quantity'') as_number) (\<lambda>q.
     Option.bind (Option.bind (field ms ''image'') as_string) (\<lambda>im.
     Some \<lparr>CartItem.id = i, name = n, price = p, quantity = q, image = im\<rparr>))))))"

definition as_OrderItem :: "json \<Rightarrow> OrderItem option" where
  "as_OrderItem v =
     Option.bind (as_object v) (\<lambda>ms.
     Option.bind (Option.bind (field ms ''id'') as_string) (\<lambda>i.
     Option.bind (Option.bind (field ms ''name'') as_string) (\<lambda>n.
     Option.bind (Option.bind (field ms ''price'') as_number) (\<lambda>p.
     Option.bind (Option.bind (field ms ''quantity'') as_number) (\<lambda>q.
     Option.bind (Option.bind (field ms ''image'') as_string) (\<lambda>im.
     Some \<lparr>OrderItem.id = i, name = n, price = p, quantity = q, image = im\<rparr>))))))"

definition as_Order :: "(json \<Rightarrow> 'i option) \<Rightarrow> json \<Rightarrow> 'i Order option" where
  "as_Order item v =
     Option.bind (as_object v) (\<lambda>ms.
     Option.bind (Option.bind (field ms ''id'') as_string) (\<lambda>i.
     Option.bind (Option.bind (field ms ''items'') (as_array item)) (\<lambda>its.
     Option.bind (Option.bind (field ms ''total'') as_number) (\<lambda>t.
     Option.bind (Option.bind (field ms ''date'') as_string) (\<lambda>d.
     Option.bind (Option.bind (field ms ''status'') as_string) (\<lambda>s.
     Some \<lparr>Order.id = i, items = its, total = t, date = d, status = s\<rparr>))))))"

definition as_CustomRequest :: "json \<Rightarrow> CustomRequest option" where
  "as_CustomRequest v =
     Option.bind (as_object v) (\<lambda>ms.
     Option.bind (Option.bind (field ms ''id'') as_string) (\<lambda>i.
     Option.bind (Option.bind (field ms ''userId'') as_string) (\<lambda>ui.
     Option.bind (Option.bind (field ms ''userEmail'') as_string) (\<lambda>ue.
     Option.bind (Option.bind (field ms ''userName'') as_string) (\<lambda>un.
     Option.bind (Option.bind (field ms ''title'') as_string) (\<lambda>t.
     Option.bind (Option.bind (field ms ''description'') as_string) (\<lambda>de.
     Option.bind (Option.bind (field ms ''quantity'') as_number) (\<lambda>q.
     Option.bind (Option.bind (field ms ''budget'') as_number) (\<lambda>b.
     Option.bind (Option.bind (field ms ''phone'') as_string) (\<lambda>ph.
     Option.bind (Option.bind (field ms ''image'') as_nullable_string) (\<lambda>im.
     Option.bind (Option.bind (field ms ''status'') as_string) (\<lambda>s.
     Option.bind (Option.bind (field ms ''date'') as_string) (\<lambda>da.
     Some \<lparr>CustomRequest.id = i, userId = ui, userEmail = ue, userName = un, title = t,
           description = de, quantity = q, budget = b, phone = ph, image = im,
           status = s, date = da\<rparr>)))))))))))))"

definition JSON_parse_as :: "(json \<Rightarrow> 'a option) \<Rightarrow> string \<Rightarrow> error + 'a" where
  "JSON_parse_as declared text =
     (case JSON_parse text of
        Inl e \<Rightarrow> Inl e
      | Inr v \<Rightarrow> (case declared v of None \<Rightarrow> Inl OutsideModel | Some x \<Rightarrow> Inr x))"

text \<open>
  In the other direction a record is the object of its declared members, in the order
  of the declaration.
\<close>

definition json_of_CartItem :: "CartItem \<Rightarrow> json" where
  "json_of_CartItem item =
     JObject [(''id'', JString (CartItem.id item)), (''name'', JString (CartItem.name item)),
              (''price'', JNumber (CartItem.price item)),
              (''quantity'', JNumber (CartItem.quantity item)),
              (''image'', JString (CartItem.image item))]"


section \<open>Components\<close>

text \<open>
  A component's state is a record of its \<^verbatim>\<open>useState\<close> variables; an effect or an event
  handler takes the state (and the storage it touches) and returns them updated. Code
  that can throw returns an \<open>outcome\<close>: \<open>Throws e s\<close> is the exception \<open>e\<close>, raised in
  state \<open>s\<close>, which holds the updates made before the exception.
\<close>

datatype 's outcome = Returns 's | Throws error 's

fun state_of :: "'s outcome \<Rightarrow> 's" where
  "state_of (Returns s) = s"
| "state_of (Throws e s) = s"

subsection \<open>Navbar and CartModal\<close>

text \<open>
  Navbar keeps the cart and whether the cart drawer is open. It touches three parts of
  the window: local storage, the global property \<^verbatim>\<open>addToCart\<close>, and the listeners for
  \<^verbatim>\<open>storage\<close> events. The only function the program assigns to \<^verbatim>\<open>window.addToCart\<close> is the
  arrow function of Navbar's first effect, and its only listener is
  \<^verbatim>\<open>handleStorageChange\<close>.

  \<^verbatim>\<open>loadCartFromStorage\<close> and \<^verbatim>\<open>addItemToCart\<close> are imported from \<^verbatim>\<open>./navbar/cartUtils\<close>, which
  is outside this development. Navbar's functions take them as parameters: a loader that
  reads local storage and may throw, and a function from the new item and the previous
  cart to the next cart, which may write local storage.
\<close>

record Navbar_state =
  isCartOpen :: bool
  cartItems :: "CartItem list"

definition Navbar_initial :: Navbar_state where
  "Navbar_initial = \<lparr>isCartOpen = False, cartItems = []\<rparr>"

datatype global_function = Navbar_addToCart

datatype listener = Navbar_handleStorageChange

record Window =
  localStorage :: storage
  addToCart :: "global_function option"
  storageListeners :: "listener list"

type_synonym loadCart = "storage \<Rightarrow> error + CartItem list"

type_synonym addItem = "NewItem \<Rightarrow> CartItem list \<Rightarrow> storage \<Rightarrow> CartItem list \<times> storage"

text \<open>The first effect (Navbar.tsx, lines 31 to 43) and its cleanup.\<close>

definition Navbar_cart_effect ::
  "loadCart \<Rightarrow> Navbar_state \<times> Window \<Rightarrow> (Navbar_state \<times> Window) outcome" where
  "Navbar_cart_effect loadCartFromStorage x =
     (case x of (st, w) \<Rightarrow>
        (case loadCartFromStorage (localStorage w) of
           Inl e \<Rightarrow> Throws e (st, w)
         | Inr loaded \<Rightarrow>
             Returns (st\<lparr>cartItems := loaded\<rparr>, w\<lparr>addToCart := Some Navbar_addToCart\<rparr>)))"

definition Navbar_cart_cleanup :: "Navbar_state \<times> Window \<Rightarrow> Navbar_state \<times> Window" where
  "Navbar_cart_cleanup x = (case x of (st, w) \<Rightarrow> (st, w\<lparr>addToCart := None\<rparr>))"

text \<open>The second effect (lines 46 to 55), its listener and its cleanup.\<close>

definition handleStorageChange ::
  "loadCart \<Rightarrow> Navbar_state \<times> Window \<Rightarrow> (Navbar_state \<times> Window) outcome" where
  "handleStorageChange loadCartFromStorage x =
     (case x of (st, w) \<Rightarrow>
        (case loadCartFromStorage (localStorage w) of
           Inl e \<Rightarrow> Throws e (st, w)
         | Inr loaded \<Rightarrow> Returns (st\<lparr>cartItems := loaded\<rparr>, w)))"

definition Navbar_storage_effect :: "Navbar_state \<times> Window \<Rightarrow> Navbar_state \<times> Window" where
  "Navbar_storage_effect x =
     (case x of (st, w) \<Rightarrow>
        (st, w\<lparr>storageListeners := storageListeners w @ [Navbar_handleStorageChange]\<rparr>))"

definition Navbar_storage_cleanup :: "Navbar_state \<times> Window \<Rightarrow> Navbar_state \<times> Window" where
  "Navbar_storage_cleanup x =
     (case x of (st, w) \<Rightarrow>
        (st, w\<lparr>storageListeners := remove1 Navbar_handleStorageChange (storageListeners w)\<rparr>))"

text \<open>
  Mounting runs the two effects in their order, from the initial state; unmounting runs
  the two cleanups.
\<close>

definition Navbar_mount :: "loadCart \<Rightarrow> Window \<Rightarrow> (Navbar_state \<times> Window) outcome" where
  "Navbar_mount loadCartFromStorage w =
     (case Navbar_cart_effect loadCartFromStorage (Navbar_initial, w) of
        Throws e x \<Rightarrow> Throws e x
      | Returns x \<Rightarrow> Returns (Navbar_storage_effect x))"

definition Navbar_unmount :: "Navbar_state \<times> Window \<Rightarrow> Navbar_state \<times> Window" where
  "Navbar_unmount x = Navbar_storage_cleanup (Navbar_cart_cleanup x)"

text \<open>
  A call \<^verbatim>\<open>window.addToCart(item)\<close> from anywhere in the page: a \<^verbatim>\<open>TypeError\<close> when the
  window has no such property, the arrow function of line 35 otherwise.
\<close>

definition window_addToCart ::
  "addItem \<Rightarrow> NewItem \<Rightarrow> Navbar_state \<times> Window \<Rightarrow> (Navbar_state \<times> Window) outcome" where
  "window_addToCart addItemToCart item x =
     (case x of (st, w) \<Rightarrow>
        (case addToCart w of
           None \<Rightarrow> Throws TypeError (st, w)
         | Some Navbar_addToCart \<Rightarrow>
             (case addItemToCart item (cartItems st) (localStorage w) of
                (added, ls) \<Rightarrow> Returns (st\<lparr>cartItems := added\<rparr>, w\<lparr>localStorage := ls\<rparr>))))"

text \<open>A \<^verbatim>\<open>storage\<close> event calls the registered listeners in the order of their registration.\<close>

fun dispatch ::
  "loadCart \<Rightarrow> listener list \<Rightarrow> Navbar_state \<times> Window \<Rightarrow> (Navbar_state \<times> Window) outcome" where
  "dispatch loadCartFromStorage [] x = Returns x"
| "dispatch loadCartFromStorage (Navbar_handleStorageChange # ls) x =
     (case handleStorageChange loadCartFromStorage x of
        Throws e y \<Rightarrow> Throws e y
      | Returns y \<Rightarrow> dispatch loadCartFromStorage ls y)"

definition storage_event ::
  "loadCart \<Rightarrow> Navbar_state \<times> Window \<Rightarrow> (Navbar_state \<times> Window) outcome" where
  "storage_event loadCartFromStorage x =
     dispatch loadCartFromStorage (storageListeners (snd x)) x"

text \<open>\<^verbatim>\<open>removeFromCart\<close> (lines 58 to 64) and the badge count (line 67).\<close>

definition removeFromCart :: "string \<Rightarrow> Navbar_state \<times> storage \<Rightarrow> Navbar_state \<times> storage" where
  "removeFromCart i x =
     (case x of (st, ls) \<Rightarrow>
        (let updatedItems = filter (\<lambda>item. CartItem.id item \<noteq> i) (cartItems st)
         in (st\<lparr>cartItems := updatedItems\<rparr>,
             setItem ls ''cartItems''
               (JSON_stringify (JArray (map json_of_CartItem updatedItems))))))"


text \<open>
  CartModal shows one entry for each item of the cart while the drawer is open; the
  remove button of the entry at position \<open>n\<close> calls \<^verbatim>\<open>removeFromCart\<close> with the id of that
  item.
\<close>

definition remove_button :: "nat \<Rightarrow> Navbar_state \<times> storage \<Rightarrow> Navbar_state \<times> storage" where
  "remove_button n x =
     (case x of (st, ls) \<Rightarrow>
        if isCartOpen st \<and> n < length (cartItems st)
        then removeFromCart (CartItem.id (cartItems st ! n)) (st, ls)
        else (st, ls))"

text \<open>
  What can happen to a mounted Navbar: the cart drawer is opened or closed, a remove
  button is pressed, some component calls \<^verbatim>\<open>window.addToCart\<close>, a \<^verbatim>\<open>storage\<close> event fires,
  alone or after another document of the same origin has written local storage. An
  exception in a handler leaves the component mounted, in the state the handler had
  reached.
\<close>

datatype Navbar_event =
    OpenCart
  | CloseCart
  | RemoveButton nat
  | CallAddToCart NewItem
  | StorageEvent
  | OtherDocumentWrites string string

fun Navbar_step ::
  "loadCart \<Rightarrow> addItem \<Rightarrow> Navbar_state \<times> Window \<Rightarrow> Navbar_event \<Rightarrow> Navbar_state \<times> Window" where
  "Navbar_step l a (st, w) OpenCart = (st\<lparr>isCartOpen := True\<rparr>, w)"
| "Navbar_step l a (st, w) CloseCart = (st\<lparr>isCartOpen := False\<rparr>, w)"
| "Navbar_step l a (st, w) (RemoveButton n) =
     (case remove_button n (st, localStorage w) of
        (st', ls) \<Rightarrow> (st', w\<lparr>localStorage := ls\<rparr>))"
| "Navbar_step l a (st, w) (CallAddToCart item) = state_of (window_addToCart a item (st, w))"
| "Navbar_step l a (st, w) StorageEvent = state_of (storage_event l (st, w))"
| "Navbar_step l a (st, w) (OtherDocumentWrites key v) =
     state_of (storage_event l (st, w\<lparr>localStorage := setItem (localStorage w) key v\<rparr>))"

definition Navbar_run ::
  "loadCart \<Rightarrow> addItem \<Rightarrow> Navbar_event list \<Rightarrow> Navbar_state \<times> Window \<Rightarrow> Navbar_state \<times> Window" where
  "Navbar_run l a evs x = foldl (Navbar_step l a) x evs"

text \<open>
  Modelled from the spec: \<^verbatim>\<open>loadCartFromStorage\<close> of \<^verbatim>\<open>./navbar/cartUtils\<close>, whose source is
  not part of this development. The spec says that the cart is the list persisted as
  JSON under the key \<^verbatim>\<open>cartItems\<close>, that missing data defaults to empty collections and
  that JSON parse failures on malformed local storage content are not guarded.
\<close>

definition loadCartFromStorage :: loadCart where
  "loadCartFromStorage ls =
     (case getItem ls ''cartItems'' of
        None \<Rightarrow> Inr []
      | Some savedCart \<Rightarrow> JSON_parse_as (as_array as_CartItem) savedCart)"

subsection \<open>AllOrders\<close>

record AllOrders_state =
  orders :: "json Order list"
  filteredOrders :: "json Order list"
  searchTerm :: string

definition AllOrders_initial :: AllOrders_state where
  "AllOrders_initial = \<lparr>orders = [], filteredOrders = [], searchTerm = []\<rparr>"

text \<open>The effect that loads the orders (AllOrders.tsx, lines 42 to 49).\<close>

definition AllOrders_load :: "storage \<Rightarrow> AllOrders_state \<Rightarrow> AllOrders_state outcome" where
  "AllOrders_load ls st =
     (case getItem ls ''orders'' of
        None \<Rightarrow> Returns st
      | Some savedOrders \<Rightarrow>
          if savedOrders = [] then Returns st
          else
            (case JSON_parse_as (as_array (as_Order Some)) savedOrders of
               Inl e \<Rightarrow> Throws e st
             | Inr parsedOrders \<Rightarrow>
                 Returns (st\<lparr>AllOrders_state.orders := parsedOrders,
                             filteredOrders := parsedOrders\<rparr>)))"

text \<open>\<^verbatim>\<open>handleSearch\<close> (lines 52 to 64), on the value of the search input.\<close>

definition handleSearch :: "string \<Rightarrow> AllOrders_state \<Rightarrow> AllOrders_state" where
  "handleSearch term st =
     (if trim term = []
      then st\<lparr>searchTerm := term, filteredOrders := AllOrders_state.orders st\<rparr>
      else
        (let filtered =
               filter (\<lambda>order. str_includes (toLowerCase (Order.id order)) (toLowerCase term))
                 (AllOrders_state.orders st)
         in st\<lparr>searchTerm := term, filteredOrders := filtered\<rparr>))"



subsection \<open>UserProfile\<close>

text \<open>
  The page renders one entry for each element of \<open>orders\<close> and one for each element of
  \<open>customRequests\<close>. Both are set by the effect of lines 57 to 71, which runs when the
  user is authenticated.
\<close>

record UserProfile_state =
  orders :: "OrderItem Order list"
  customRequests :: "CustomRequest list"

definition UserProfile_initial :: UserProfile_state where
  "UserProfile_initial = \<lparr>UserProfile_state.orders = [], customRequests = []\<rparr>"

definition UserProfile_load ::
  "bool \<Rightarrow> User option \<Rightarrow> storage \<Rightarrow> UserProfile_state \<Rightarrow> UserProfile_state outcome" where
  "UserProfile_load isAuthenticated user ls st =
     (case (isAuthenticated, user) of
        (True, Some u) \<Rightarrow>
          (case JSON_parse_as (as_array (as_Order as_OrderItem))
                  (or_else (getItem ls ''orders'') ''[]'') of
             Inl e \<Rightarrow> Throws e st
           | Inr allOrders \<Rightarrow>
               (case JSON_parse_as (as_array as_CustomRequest)
                       (or_else (getItem ls ''customRequests'') ''[]'') of
                  Inl e \<Rightarrow> Throws e (st\<lparr>UserProfile_state.orders := allOrders\<rparr>)
                | Inr allRequests \<Rightarrow>
                    (let userRequests =
                           filter (\<lambda>request. userId request = User.id u) allRequests
                     in Returns (st\<lparr>UserProfile_state.orders := allOrders,
                                     customRequests := userRequests\<rparr>))))
      | _ \<Rightarrow> Returns st)"

section \<open>Example data\<close>

text \<open>Carts, orders, requests, users and storage contents on which the components are run below.\<close>

definition bath_towel :: "number \<Rightarrow> CartItem" where
  "bath_towel q =
     \<lparr>CartItem.id = ''a'', name = ''Bath towel'', price = 450, quantity = q, image = ''/a.png''\<rparr>"

definition hand_towel :: "number \<Rightarrow> CartItem" where
  "hand_towel q =
     \<lparr>CartItem.id = ''b'', name = ''Hand towel'', price = 120, quantity = q, image = ''/b.png''\<rparr>"

definition open_cart :: "CartItem list \<Rightarrow> Navbar_state" where
  "open_cart cart = \<lparr>isCartOpen = True, cartItems = cart\<rparr>"

definition order_1 :: "string \<Rightarrow> 'i Order" where
  "order_1 s = \<lparr>Order.id = ''ORD-1001'', items = [], total = 450, date = ''2024-01-01'', status = s\<rparr>"

definition order_2 :: "string \<Rightarrow> 'i Order" where
  "order_2 s = \<lparr>Order.id = ''ord-2002'', items = [], total = 120, date = ''2024-01-02'', status = s\<rparr>"

definition orders_text :: string where
  "orders_text =
     ''[{\"id\":\"ORD-1001\",\"items\":[],\"total\":450,\"date\":\"2024-01-01\",\"status\":\"Processing\"}]''"

definition request_of :: "string \<Rightarrow> string \<Rightarrow> CustomRequest" where
  "request_of i u =
     \<lparr>CustomRequest.id = i, userId = u, userEmail = ''a@x.org'', userName = ''A'',
      title = ''Logo'', description = ''Embroidered logo'', quantity = 10, budget = 5,
      phone = ''1'', image = None, status = ''pending'', date = ''2024-01-03''\<rparr>"

definition requests_text :: string where
  "requests_text =
     ''[{\"id\":\"r1\",\"userId\":\"u1\",\"userEmail\":\"a@x.org\",\"userName\":\"A\",\"title\":\"Logo\",\"description\":\"Embroidered logo\",\"quantity\":10,\"budget\":5,\"phone\":\"1\",\"image\":null,\"status\":\"pending\",\"date\":\"2024-01-03\"},{\"id\":\"r2\",\"userId\":\"u2\",\"userEmail\":\"a@x.org\",\"userName\":\"A\",\"title\":\"Logo\",\"description\":\"Embroidered logo\",\"quantity\":10,\"budget\":5,\"phone\":\"1\",\"image\":null,\"status\":\"pending\",\"date\":\"2024-01-03\"}]''"

definition cart_text :: string where
  "cart_text =
     ''[{\"id\":\"b\",\"name\":\"Hand towel\",\"price\":120,\"quantity\":1,\"image\":\"/b.png\"}]''"

definition user_of :: "string \<Rightarrow> User" where
  "user_of i = \<lparr>User.id = i, name = ''A'', email = ''a@x.org'', role = ''user''\<rparr>"

definition empty_window :: Window where
  "empty_window = \<lparr>localStorage = Map.empty, addToCart = None, storageListeners = []\<rparr>"

text \<open>
  A function to stand for \<^verbatim>\<open>addItemToCart\<close> in the runs below: it appends the new item, with
  quantity 1 when none is given, and stores the cart.
\<close>

definition append_item :: addItem where
  "append_item item previous ls =
     (let added = previous @
            [\<lparr>CartItem.id = NewItem.id item, name = NewItem.name item, price = NewItem.price item,
              quantity = (case NewItem.quantity item of None \<Rightarrow> 1 | Some q \<Rightarrow> q),
              image = NewItem.image item\<rparr>]
      in (added, setItem ls ''cartItems'' (JSON_stringify (JArray (map json_of_CartItem added)))))"

section \<open>Properties of the string operations\<close>

lemma trim_empty_iff: "trim s = [] \<longleftrightarrow> (\<forall>c \<in> set s. is_space c)"
proof
  assume "trim s = []"
  then have "dropWhile is_space (rev (dropWhile is_space s)) = []"
    by (simp add: trim_def)
  then have all: "\<forall>c \<in> set (dropWhile is_space s). is_space c"
    by (auto dest: set_dropWhileD)
  have "dropWhile is_space s = []"
  proof (rule ccontr)
    assume nonempty: "dropWhile is_space s \<noteq> []"
    then have "\<not> is_space (hd (dropWhile is_space s))" by (rule hd_dropWhile)
    moreover from nonempty have "hd (dropWhile is_space s) \<in> set (dropWhile is_space s)"
      by simp
    ultimately show False using all by blast
  qed
  then show "\<forall>c \<in> set s. is_space c" by simp
next
  assume "\<forall>c \<in> set s. is_space c"
  then have empty: "dropWhile is_space s = []" by (induction s) simp_all
  show "trim s = []" unfolding trim_def empty by simp
qed

lemma str_includes_sublist: "str_includes s t \<longleftrightarrow> sublist t s"
  by (induction s) (simp_all add: sublist_Cons_right)

lemma str_includes_iff: "str_includes s t \<longleftrightarrow> (\<exists>before after. s = before @ t @ after)"
  by (simp add: str_includes_sublist sublist_def)



section \<open>Properties of the JSON functions\<close>

lemma JSON_parse_empty_array: "JSON_parse ''[]'' = Inr (JArray [])"
  by code_simp

lemma JSON_parse_as_empty_array: "JSON_parse_as (as_array elem) ''[]'' = Inr []"
  by (simp add: JSON_parse_as_def JSON_parse_empty_array as_array_def)

section \<open>Properties of the mounted Navbar\<close>

lemma dispatch_window: "snd (state_of (dispatch l ls x)) = snd x"
proof (induction ls arbitrary: x)
  case Nil
  show ?case by simp
next
  case (Cons h ls)
  obtain st w where x: "x = (st, w)" by (cases x)
  show ?case
  proof (cases "l (localStorage w)")
    case (Inl e)
    then show ?thesis by (cases h) (simp add: x handleStorageChange_def)
  next
    case (Inr loaded)
    with Cons.IH [of "(st\<lparr>cartItems := loaded\<rparr>, w)"] show ?thesis
      by (cases h) (simp add: x handleStorageChange_def)
  qed
qed

lemma dispatch_reloads:
  assumes "l (localStorage w) = Inr loaded" and "ls \<noteq> []"
  shows "dispatch l ls (st, w) = Returns (st\<lparr>cartItems := loaded\<rparr>, w)"
  using assms(2)
proof (induction ls arbitrary: st)
  case Nil
  then show ?case by simp
next
  case (Cons h ls)
  show ?case
  proof (cases "ls = []")
    case True
    with assms(1) show ?thesis by (cases h) (simp add: handleStorageChange_def)
  next
    case False
    with Cons.IH [of "st\<lparr>cartItems := loaded\<rparr>"] assms(1) show ?thesis
      by (cases h) (simp add: handleStorageChange_def)
  qed
qed

lemma Navbar_step_window:
  "addToCart (snd (Navbar_step l a x ev)) = addToCart (snd x)
   \<and> storageListeners (snd (Navbar_step l a x ev)) = storageListeners (snd x)"
proof -
  obtain st w where x: "x = (st, w)" by (cases x)
  show ?thesis
  proof (cases ev)
    case (CallAddToCart item)
    then show ?thesis
      by (simp add: x window_addToCart_def split: option.splits global_function.splits prod.splits)
  next
    case StorageEvent
    then show ?thesis
      using dispatch_window [of l "storageListeners w" "(st, w)"]
      by (simp add: x storage_event_def)
  next
    case (OtherDocumentWrites key v)
    then show ?thesis
      using dispatch_window [of l "storageListeners w"
          "(st, w\<lparr>localStorage := setItem (localStorage w) key v\<rparr>)"]
      by (simp add: x storage_event_def)
  qed (simp_all add: x split: prod.splits)
qed

lemma Navbar_run_window:
  "addToCart (snd (Navbar_run l a evs x)) = addToCart (snd x)
   \<and> storageListeners (snd (Navbar_run l a evs x)) = storageListeners (snd x)"
  unfolding Navbar_run_def
  by (induction evs arbitrary: x) (simp_all add: Navbar_step_window)

lemma Navbar_mount_window:
  assumes "Navbar_mount l w = Returns x"
  shows "addToCart (snd x) = Some Navbar_addToCart
    \<and> storageListeners (snd x) = storageListeners w @ [Navbar_handleStorageChange]"
  using assms
  by (auto simp: Navbar_mount_def Navbar_cart_effect_def Navbar_storage_effect_def
           split: sum.splits)

section \<open>Reading back what JSON.stringify wrote\<close>

lemma of_char_digit_char: "d < 10 \<Longrightarrow> (of_char (digit_char d) :: nat) = 48 + d"
  by (simp add: digit_char_def)

lemma is_digit_digit_char: "d < 10 \<Longrightarrow> is_digit (digit_char d)"
  by (simp add: is_digit_def of_char_digit_char)

lemma digit_val_digit_char: "d < 10 \<Longrightarrow> digit_val (digit_char d) = d"
  by (simp add: digit_val_def of_char_digit_char)

lemma hex_val_hex_char: "d < 16 \<Longrightarrow> hex_val (hex_char d) = Some d"
  by (simp add: hex_val_def hex_char_def Let_def)

subsection \<open>Strings\<close>

lemma scan_string_escape: "scan_string (escape c @ r) = cons_char c (scan_string r)"
proof -
  consider (quote) "c = CHR 0x22" | (backslash) "c = CHR 0x5C"
    | (short) "c \<in> {CHR 0x08, CHR 0x0C, CHR 0x0A, CHR 0x0D, CHR 0x09}"
    | (control) "c \<notin> {CHR 0x22, CHR 0x5C, CHR 0x08, CHR 0x0C, CHR 0x0A, CHR 0x0D, CHR 0x09}"
        "(of_char c :: nat) < 32"
    | (plain) "c \<notin> {CHR 0x22, CHR 0x5C, CHR 0x08, CHR 0x0C, CHR 0x0A, CHR 0x0D, CHR 0x09}"
        "\<not> (of_char c :: nat) < 32"
    by blast
  then show ?thesis
  proof cases
    case quote
    then show ?thesis by (simp add: escape_def unescape_def)
  next
    case backslash
    then show ?thesis by (simp add: escape_def unescape_def)
  next
    case short
    then show ?thesis by (auto simp: escape_def unescape_def)
  next
    case control
    let ?n = "of_char c :: nat"
    from control(2) have hi: "?n div 16 < 16" and lo: "?n mod 16 < 16" by simp_all
    have zero: "hex_val (CHR ''0'') = Some 0" by (simp add: hex_val_def)
    have "hex4 (CHR ''0'' # CHR ''0'' # hex_char (?n div 16) # hex_char (?n mod 16) # r) = Some ?n"
      by (simp add: hex4_def zero hex_val_hex_char [OF hi] hex_val_hex_char [OF lo])
    with control show ?thesis by (simp add: escape_def)
  next
    case plain
    then show ?thesis by (simp add: escape_def)
  qed
qed

lemma scan_string_escaped:
  "scan_string (concat (map escape s) @ CHR 0x22 # rest) = Inr (s, rest)"
  by (induction s) (simp_all add: scan_string_escape cons_char_def)

subsection \<open>Numbers\<close>

lemma show_nat_digits: "\<forall>c \<in> set (show_nat k). is_digit c"
proof (induction k rule: show_nat.induct)
  case (1 n)
  show ?case
  proof (cases "n < 10")
    case True
    then show ?thesis by (subst show_nat.simps) (simp add: is_digit_digit_char)
  next
    case False
    with 1 show ?thesis
      by (subst show_nat.simps) (simp add: is_digit_digit_char)
  qed
qed

lemma show_nat_nonempty: "show_nat k \<noteq> []"
  by (subst show_nat.simps) simp

lemma nat_of_digits_snoc: "nat_of_digits (ds @ [c]) = 10 * nat_of_digits ds + digit_val c"
  by (simp add: nat_of_digits_def)

lemma nat_of_digits_show_nat: "nat_of_digits (show_nat k) = k"
proof (induction k rule: show_nat.induct)
  case (1 n)
  show ?case
  proof (cases "n < 10")
    case True
    then show ?thesis by (subst show_nat.simps) (simp add: nat_of_digits_def digit_val_digit_char)
  next
    case False
    with 1 show ?thesis
      by (subst show_nat.simps) (simp add: nat_of_digits_snoc digit_val_digit_char)
  qed
qed

lemma show_nat_leading: "10 \<le> k \<Longrightarrow> hd (show_nat k) \<noteq> CHR ''0''"
proof (induction k rule: show_nat.induct)
  case (1 n)
  from "1.prems" have big: "\<not> n < 10" by simp
  have unfold: "show_nat n = show_nat (n div 10) @ [digit_char (n mod 10)]"
    using big by (subst show_nat.simps) simp
  show ?case
  proof (cases "n div 10 < 10")
    case True
    from "1.prems" have "0 < n div 10" by simp
    with True have "(of_char (digit_char (n div 10)) :: nat) \<noteq> of_char (CHR ''0'')"
      by (simp add: of_char_digit_char)
    then have "digit_char (n div 10) \<noteq> CHR ''0''" by auto
    with True show ?thesis by (simp add: unfold show_nat.simps [of "n div 10"])
  next
    case False
    with "1.IH" big have "hd (show_nat (n div 10)) \<noteq> CHR ''0''" by simp
    then show ?thesis by (simp add: unfold show_nat_nonempty)
  qed
qed

lemma show_nat_tail: "hd (show_nat k) = CHR ''0'' \<Longrightarrow> tl (show_nat k) = []"
proof (cases "k < 10")
  case True
  then show ?thesis by (subst show_nat.simps) simp
next
  case False
  assume "hd (show_nat k) = CHR ''0''"
  with False show_nat_leading [of k] show ?thesis by simp
qed

lemma digits_then: "closes rest \<Longrightarrow>
  takeWhile is_digit (show_nat k @ rest) = show_nat k
  \<and> dropWhile is_digit (show_nat k @ rest) = rest"
proof -
  assume "closes rest"
  then have stop: "takeWhile is_digit rest = [] \<and> dropWhile is_digit rest = rest"
    by (cases rest) (auto simp: closes_def is_digit_def)
  from show_nat_digits [of k] stop show ?thesis
    by (simp add: takeWhile_append2 dropWhile_append2)
qed

lemma lex_int_show_nat: "closes rest \<Longrightarrow> lex_int (show_nat k @ rest) = Some (show_nat k, rest)"
  using show_nat_tail [of k]
  by (auto simp: lex_int_def Let_def digits_then show_nat_nonempty)

lemma lex_frac_closes: "closes rest \<Longrightarrow> lex_frac rest = Some ([], rest)"
  by (cases rest) (auto simp: closes_def lex_frac_def)

lemma lex_exp_closes: "closes rest \<Longrightarrow> lex_exp rest = Some (0, rest)"
  by (cases rest) (auto simp: closes_def lex_exp_def)

lemma lex_sign_show_nat: "lex_sign (show_nat k @ rest) = (False, show_nat k @ rest)"
proof -
  obtain c cs where split: "show_nat k = c # cs"
    using show_nat_nonempty [of k] by (cases "show_nat k") auto
  with show_nat_digits [of k] have "is_digit c" by simp
  then have "c \<noteq> CHR ''-''" by (auto simp: is_digit_def)
  then show ?thesis by (simp add: split lex_sign_def)
qed

lemma lex_number_show_nat:
  "closes rest \<Longrightarrow> lex_number (show_nat k @ rest) = Inr (int k, rest)"
  by (simp add: lex_number_def lex_sign_show_nat lex_int_show_nat lex_frac_closes
        lex_exp_closes whole_def nat_of_digits_show_nat)

lemma lex_number_show_number:
  "closes rest \<Longrightarrow> lex_number (show_number n @ rest) = Inr (n, rest)"
proof (cases "n < 0")
  case True
  assume "closes rest"
  with True show ?thesis
    by (simp add: show_number_def lex_number_def lex_sign_def lex_int_show_nat lex_frac_closes
          lex_exp_closes whole_def nat_of_digits_show_nat)
next
  case False
  assume "closes rest"
  with False lex_number_show_nat [of rest "nat n"] show ?thesis
    by (simp add: show_number_def)
qed

subsection \<open>Tokens\<close>

lemma prepend_Nil: "prepend [] r = r"
  by (simp add: prepend_def split: sum.splits)

lemma cons_token_prepend: "cons_token t (prepend ts r) = prepend (t # ts) r"
  by (simp add: cons_token_def prepend_def split: sum.splits)

lemma cons_token_is_prepend: "cons_token t r = prepend [t] r"
  by (simp add: cons_token_def prepend_def split: sum.splits)

lemma prepend_prepend: "prepend ts (prepend us r) = prepend (ts @ us) r"
  by (simp add: prepend_def split: sum.splits)

lemma closes_simps:
  "closes []" "closes (CHR '','' # r)" "closes (CHR '']'' # r)" "closes (CHR ''}'' # r)"
  by (simp_all add: closes_def)

lemma tokenize_punctuation:
  "tokenize (CHR ''{'' # cs) = cons_token LBrace (tokenize cs)"
  "tokenize (CHR ''}'' # cs) = cons_token RBrace (tokenize cs)"
  "tokenize (CHR ''['' # cs) = cons_token LBracket (tokenize cs)"
  "tokenize (CHR '']'' # cs) = cons_token RBracket (tokenize cs)"
  "tokenize (CHR '','' # cs) = cons_token Comma (tokenize cs)"
  "tokenize (CHR '':'' # cs) = cons_token Colon (tokenize cs)"
  by (simp_all add: tokenize.simps is_json_ws_def)

lemma tokenize_literal:
  "tokenize (''null'' @ rest) = cons_token (Value JNull) (tokenize rest)"
  "tokenize (''true'' @ rest) = cons_token (Value (JBool True)) (tokenize rest)"
  "tokenize (''false'' @ rest) = cons_token (Value (JBool False)) (tokenize rest)"
  by (simp_all add: tokenize.simps is_json_ws_def is_digit_def)

lemma tokenize_quote:
  "tokenize (quote s @ rest) = cons_token (Value (JString s)) (tokenize rest)"
  by (simp add: tokenize.simps quote_def is_json_ws_def scan_string_escaped)

lemma tokenize_number:
  assumes "closes rest"
  shows "tokenize (show_number n @ rest) = cons_token (Value (JNumber n)) (tokenize rest)"
proof -
  obtain c cs where split: "show_number n = c # cs" and first: "is_digit c \<or> c = CHR ''-''"
  proof (cases "n < 0")
    case True
    then show ?thesis using that by (simp add: show_number_def)
  next
    case False
    obtain d ds where "show_nat (nat n) = d # ds"
      using show_nat_nonempty [of "nat n"] by (cases "show_nat (nat n)") auto
    with False show_nat_digits [of "nat n"] show ?thesis
      using that by (simp add: show_number_def)
  qed
  from first have plain: "\<not> is_json_ws c" "c \<noteq> CHR ''{''" "c \<noteq> CHR ''}''" "c \<noteq> CHR ''[''"
    "c \<noteq> CHR '']''" "c \<noteq> CHR '',''" "c \<noteq> CHR '':''" "c \<noteq> CHR 0x22"
    by (auto simp: is_digit_def is_json_ws_def)
  from lex_number_show_number [OF assms, of n]
  have "lex_number (c # cs @ rest) = Inr (n, rest)" by (simp add: split)
  with plain first show ?thesis by (simp add: tokenize.simps split)
qed

lemma tokenize_join:
  assumes each: "\<And>x r. x \<in> set xs \<Longrightarrow> closes r \<Longrightarrow>
      tokenize (f x @ r) = prepend (g x) (tokenize r)"
    and "closes rest"
  shows "tokenize (join (CHR '','') (map f xs) @ rest)
    = prepend (join Comma (map g xs)) (tokenize rest)"
  using each
proof (induction xs)
  case Nil
  show ?case by (simp add: prepend_Nil)
next
  case (Cons x xs)
  show ?case
  proof (cases xs)
    case Nil
    with Cons.prems [of x rest] assms(2) show ?thesis by simp
  next
    case (Cons y ys)
    have rest_of: "tokenize (join (CHR '','') (map f xs) @ rest)
        = prepend (join Comma (map g xs)) (tokenize rest)"
      by (rule Cons.IH) (simp add: Cons.prems)
    have "tokenize (f x @ CHR '','' # join (CHR '','') (map f xs) @ rest)
        = prepend (g x) (tokenize (CHR '','' # join (CHR '','') (map f xs) @ rest))"
      by (rule Cons.prems) (simp_all add: closes_simps)
    also have "\<dots> = prepend (g x @ Comma # join Comma (map g xs)) (tokenize rest)"
      by (simp add: tokenize_punctuation rest_of cons_token_prepend prepend_prepend)
    finally show ?thesis by (simp add: Cons)
  qed
qed

lemma tokenize_stringify:
  "closes rest \<Longrightarrow> tokenize (JSON_stringify v @ rest) = prepend (tokens_of v) (tokenize rest)"
proof (induction v arbitrary: rest)
  case JNull
  show ?case using tokenize_literal(1) [of rest] by (simp add: cons_token_is_prepend)
next
  case (JBool b)
  show ?case
    using tokenize_literal(2) [of rest] tokenize_literal(3) [of rest]
    by (simp add: cons_token_is_prepend)
next
  case (JNumber n)
  then show ?case by (simp add: tokenize_number cons_token_is_prepend)
next
  case (JString s)
  show ?case by (simp add: tokenize_quote cons_token_is_prepend)
next
  case (JArray vs)
  have "tokenize (join (CHR '','') (map JSON_stringify vs) @ CHR '']'' # rest)
      = prepend (join Comma (map tokens_of vs)) (tokenize (CHR '']'' # rest))"
    by (rule tokenize_join) (simp_all add: JArray.IH closes_simps)
  then show ?case
    by (simp add: tokenize_punctuation cons_token_prepend cons_token_is_prepend prepend_prepend)
next
  case (JObject ms)
  have member: "tokenize ((\<lambda>(k, v). quote k @ CHR '':'' # JSON_stringify v) m @ r)
      = prepend ((\<lambda>(k, v). Value (JString k) # Colon # tokens_of v) m) (tokenize r)"
    if "m \<in> set ms" "closes r" for m r
  proof -
    obtain k v where m: "m = (k, v)" by (cases m)
    with that(1) have "tokenize (JSON_stringify v @ r) = prepend (tokens_of v) (tokenize r)"
      by (intro JObject.IH [of m v]) (simp_all add: that(2))
    then show ?thesis
      using tokenize_quote [of k "CHR '':'' # JSON_stringify v @ r"]
      by (simp add: m tokenize_punctuation cons_token_prepend)
  qed
  have "tokenize (join (CHR '','') (map (\<lambda>(k, v). quote k @ CHR '':'' # JSON_stringify v) ms)
          @ CHR ''}'' # rest)
      = prepend (join Comma (map (\<lambda>(k, v). Value (JString k) # Colon # tokens_of v) ms))
          (tokenize (CHR ''}'' # rest))"
    by (rule tokenize_join) (simp_all add: member closes_simps)
  then show ?case
    by (simp add: tokenize_punctuation cons_token_prepend cons_token_is_prepend prepend_prepend)
qed

subsection \<open>Values\<close>

lemma parse_tokens_append:
  "parse_tokens (ts @ us) st = Option.bind (parse_tokens ts st) (parse_tokens us)"
  by (induction ts arbitrary: st) (simp_all split: option.splits)

lemma parse_elements:
  assumes each: "\<And>v stack ts ex. v \<in> set vs \<Longrightarrow> value_next ex \<Longrightarrow>
      parse_tokens (tokens_of v @ ts) (stack, ex)
        = Option.bind (push_value v stack) (parse_tokens ts)"
    and "vs \<noteq> []" and "value_next ex"
  shows "parse_tokens (join Comma (map tokens_of vs) @ RBracket # ts) (InArray es # stack, ex)
    = Option.bind (push_value (JArray (rev es @ vs)) stack) (parse_tokens ts)"
  using assms
proof (induction vs arbitrary: es ex)
  case Nil
  then show ?case by simp
next
  case (Cons x xs)
  have first: "parse_tokens (tokens_of x @ us) (InArray es # stack, ex)
      = parse_tokens us (InArray (x # es) # stack, ExpCommaOrClose)" for us
    using Cons.prems(1) [of x ex us "InArray es # stack"] Cons.prems(3)
    by (simp add: push_value_def)
  show ?case
  proof (cases xs)
    case Nil
    then show ?thesis
      by (simp add: first parse_step_def close_container_def split: option.splits)
  next
    case (Cons y ys)
    have "parse_tokens (join Comma (map tokens_of xs) @ RBracket # ts)
        (InArray (x # es) # stack, ExpValue)
      = Option.bind (push_value (JArray (rev (x # es) @ xs)) stack) (parse_tokens ts)"
    proof (rule Cons.IH)
      show "parse_tokens (tokens_of v' @ ts') (stack', ex')
          = Option.bind (push_value v' stack') (parse_tokens ts')"
        if "v' \<in> set xs" "value_next ex'" for v' stack' ts' ex'
        using that Cons.prems(1) [of v' ex' ts' stack'] by simp
    qed (simp_all add: Cons value_next_def)
    then show ?thesis
      by (simp add: Cons first parse_step_def)
  qed
qed

lemma parse_members:
  assumes each: "\<And>k v stack ts ex. (k, v) \<in> set ms \<Longrightarrow> value_next ex \<Longrightarrow>
      parse_tokens (tokens_of v @ ts) (stack, ex)
        = Option.bind (push_value v stack) (parse_tokens ts)"
    and "ms \<noteq> []" and "key_next ex"
  shows "parse_tokens
      (join Comma (map (\<lambda>(k, v). Value (JString k) # Colon # tokens_of v) ms) @ RBrace # ts)
      (InObject acc # stack, ex)
    = Option.bind (push_value (JObject (rev acc @ ms)) stack) (parse_tokens ts)"
  using assms
proof (induction ms arbitrary: acc ex)
  case Nil
  then show ?case by simp
next
  case (Cons m ms)
  obtain k v where m: "m = (k, v)" by (cases m)
  have first: "parse_tokens (Value (JString k) # Colon # tokens_of v @ us) (InObject acc # stack, ex)
      = parse_tokens us (InObject ((k, v) # acc) # stack, ExpCommaOrClose)" for us
    using Cons.prems(1) [of k v ExpValue us "InMember acc k # stack"] Cons.prems(3)
    by (auto simp: m key_next_def value_next_def parse_step_def start_member_def push_value_def)
  show ?case
  proof (cases ms)
    case Nil
    then show ?thesis
      using first [of "RBrace # ts"]
      by (simp add: m parse_step_def close_container_def split: option.splits)
  next
    case (Cons y ys)
    have "parse_tokens
        (join Comma (map (\<lambda>(k, v). Value (JString k) # Colon # tokens_of v) ms) @ RBrace # ts)
        (InObject ((k, v) # acc) # stack, ExpKey)
      = Option.bind (push_value (JObject (rev ((k, v) # acc) @ ms)) stack) (parse_tokens ts)"
    proof (rule Cons.IH)
      show "parse_tokens (tokens_of v' @ ts') (stack', ex')
          = Option.bind (push_value v' stack') (parse_tokens ts')"
        if "(k', v') \<in> set ms" "value_next ex'" for k' v' stack' ts' ex'
        using that Cons.prems(1) [of k' v' ex' ts' stack'] by simp
    qed (simp_all add: Cons key_next_def)
    then show ?thesis
      using first [of "Comma # join Comma
          (map (\<lambda>(k, v). Value (JString k) # Colon # tokens_of v) ms) @ RBrace # ts"]
      by (simp add: Cons m parse_step_def)
  qed
qed

lemma parse_tokens_of:
  "value_next ex \<Longrightarrow>
   parse_tokens (tokens_of v @ ts) (stack, ex) = Option.bind (push_value v stack) (parse_tokens ts)"
proof (induction v arbitrary: stack ts ex)
  case (JArray vs)
  show ?case
  proof (cases "vs = []")
    case True
    with JArray.prems show ?thesis
      by (auto simp: value_next_def parse_step_def start_value_def close_container_def
               split: option.splits)
  next
    case False
    have "parse_tokens (join Comma (map tokens_of vs) @ RBracket # ts)
        (InArray [] # stack, ExpValueOrClose)
      = Option.bind (push_value (JArray (rev [] @ vs)) stack) (parse_tokens ts)"
      by (rule parse_elements) (simp_all add: JArray.IH False value_next_def)
    with JArray.prems show ?thesis
      by (auto simp: value_next_def parse_step_def start_value_def)
  qed
next
  case (JObject ms)
  show ?case
  proof (cases "ms = []")
    case True
    with JObject.prems show ?thesis
      by (auto simp: value_next_def parse_step_def start_value_def close_container_def
               split: option.splits)
  next
    case False
    have each: "parse_tokens (tokens_of v @ ts) (stack, ex)
        = Option.bind (push_value v stack) (parse_tokens ts)"
      if "(k, v) \<in> set ms" "value_next ex" for k v stack ts ex
      using that by (intro JObject.IH [of "(k, v)" v]) simp_all
    have "parse_tokens
        (join Comma (map (\<lambda>(k, v). Value (JString k) # Colon # tokens_of v) ms) @ RBrace # ts)
        (InObject [] # stack, ExpKeyOrClose)
      = Option.bind (push_value (JObject (rev [] @ ms)) stack) (parse_tokens ts)"
      by (rule parse_members) (simp_all add: each False key_next_def)
    with JObject.prems show ?thesis
      by (auto simp: value_next_def parse_step_def start_value_def)
  qed
qed (auto simp: value_next_def parse_step_def start_value_def split: option.splits)

lemma JSON_parse_stringify: "JSON_parse (JSON_stringify v) = Inr v"
proof -
  have "tokenize (JSON_stringify v @ []) = prepend (tokens_of v) (tokenize [])"
    by (rule tokenize_stringify) (simp add: closes_def)
  then have tokens: "tokenize (JSON_stringify v) = Inr (tokens_of v)"
    by (simp add: prepend_def tokenize.simps)
  have "parse_tokens (tokens_of v @ []) ([], ExpValue)
      = Option.bind (push_value v []) (parse_tokens [])"
    by (rule parse_tokens_of) (simp add: value_next_def)
  then have "parse_tokens (tokens_of v) ([], ExpValue) = Some ([], ExpEnd v)"
    by (simp add: push_value_def)
  with tokens show ?thesis by (simp add: JSON_parse_def)
qed

subsection \<open>Records\<close>

lemma those_map_Some: "(\<And>x. x \<in> set xs \<Longrightarrow> f (g x) = Some x) \<Longrightarrow> those (map f (map g xs)) = Some xs"
  by (induction xs) simp_all

lemma as_array_of: "(\<And>x. x \<in> set xs \<Longrightarrow> elem (enc x) = Some x) \<Longrightarrow> as_array elem (JArray (map enc xs)) = Some xs"
  by (simp add: as_array_def those_map_Some del: map_map)

lemma as_CartItem_of: "as_CartItem (json_of_CartItem item) = Some item"
  by (simp add: as_CartItem_def json_of_CartItem_def as_object_def field_def as_string_def
        as_number_def)


lemma JSON_parse_as_stringify:
  "(\<And>x. x \<in> set xs \<Longrightarrow> elem (enc x) = Some x) \<Longrightarrow>
   JSON_parse_as (as_array elem) (JSON_stringify (JArray (map enc xs))) = Inr xs"
  by (simp add: JSON_parse_as_def JSON_parse_stringify as_array_of del: JSON_stringify.simps)

lemma read_back_cart:
  "JSON_parse_as (as_array as_CartItem) (JSON_stringify (JArray (map json_of_CartItem cart))) = Inr cart"
  by (rule JSON_parse_as_stringify) (rule as_CartItem_of)


section \<open>The claims\<close>

text \<open>
  C1, as amended. For every authenticated user, the custom requests that the profile
  page shows are exactly the stored requests whose \<open>userId\<close> is the id of that user, in
  their stored order. The order history it shows is the list of all stored orders,
  whoever the user is: an order carries no user.
\<close>

theorem UserProfile_load_shows:
  assumes "JSON_parse_as (as_array (as_Order as_OrderItem))
             (or_else (getItem ls ''orders'') ''[]'') = Inr allOrders"
    and "JSON_parse_as (as_array as_CustomRequest)
             (or_else (getItem ls ''customRequests'') ''[]'') = Inr allRequests"
  shows "\<exists>st'. UserProfile_load True (Some user) ls st = Returns st'
    \<and> customRequests st' = filter (\<lambda>request. userId request = User.id user) allRequests
    \<and> (\<forall>request. request \<in> set (customRequests st')
          \<longleftrightarrow> request \<in> set allRequests \<and> userId request = User.id user)
    \<and> subseq (customRequests st') allRequests
    \<and> UserProfile_state.orders st' = allOrders
    \<and> (\<forall>other. UserProfile_state.orders
                   (state_of (UserProfile_load True (Some other) ls st)) = allOrders)"
proof -
  have load: "UserProfile_load True (Some u) ls st
      = Returns (st\<lparr>UserProfile_state.orders := allOrders,
                    customRequests := filter (\<lambda>request. userId request = User.id u) allRequests\<rparr>)"
    for u
    using assms by (simp add: UserProfile_load_def Let_def)
  show ?thesis
    by (simp add: load)
qed

theorem UserProfile_load_shows_witness:
  "UserProfile_load True (Some (user_of ''u1''))
      (Map.empty(''orders'' \<mapsto> orders_text, ''customRequests'' \<mapsto> requests_text))
      UserProfile_initial
     = Returns \<lparr>UserProfile_state.orders = [order_1 ''Processing''],
                customRequests = [request_of ''r1'' ''u1'']\<rparr>"
proof -
  have orders: "JSON_parse_as (as_array (as_Order as_OrderItem))
      (or_else (getItem (Map.empty(''orders'' \<mapsto> orders_text, ''customRequests'' \<mapsto> requests_text))
         ''orders'') ''[]'') = Inr [order_1 ''Processing'']"
    by code_simp
  have requests: "JSON_parse_as (as_array as_CustomRequest)
      (or_else (getItem (Map.empty(''orders'' \<mapsto> orders_text, ''customRequests'' \<mapsto> requests_text))
         ''customRequests'') ''[]'') = Inr [request_of ''r1'' ''u1'', request_of ''r2'' ''u2'']"
    by code_simp
  from UserProfile_load_shows [OF orders requests, of "user_of ''u1''" UserProfile_initial]
  obtain st' where "UserProfile_load True (Some (user_of ''u1''))
      (Map.empty(''orders'' \<mapsto> orders_text, ''customRequests'' \<mapsto> requests_text))
      UserProfile_initial = Returns st'"
    and "customRequests st' = filter (\<lambda>request. userId request = User.id (user_of ''u1''))
      [request_of ''r1'' ''u1'', request_of ''r2'' ''u2'']"
    and "UserProfile_state.orders st' = [order_1 ''Processing'']"
    by blast
  then show ?thesis
    by (cases st') (simp add: user_of_def request_of_def)
qed

text \<open>
  C1 as it was stated fails for the orders: with one order in local storage, the profile
  pages of two different users both show that order.
\<close>

theorem UserProfile_orders_counterexample:
  "User.id (user_of ''u1'') \<noteq> User.id (user_of ''u2'')
   \<and> UserProfile_state.orders (state_of (UserProfile_load True (Some (user_of ''u1''))
        (Map.empty(''orders'' \<mapsto> orders_text)) UserProfile_initial))
       = [order_1 ''Processing'']
   \<and> UserProfile_state.orders (state_of (UserProfile_load True (Some (user_of ''u2''))
        (Map.empty(''orders'' \<mapsto> orders_text)) UserProfile_initial))
       = [order_1 ''Processing'']"
proof -
  have "User.id (user_of ''u1'') \<noteq> User.id (user_of ''u2'')"
    by (simp add: user_of_def)
  moreover have "UserProfile_state.orders (state_of (UserProfile_load True (Some (user_of ''u1''))
        (Map.empty(''orders'' \<mapsto> orders_text)) UserProfile_initial))
       = [order_1 ''Processing'']"
    by code_simp
  moreover have "UserProfile_state.orders (state_of (UserProfile_load True (Some (user_of ''u2''))
        (Map.empty(''orders'' \<mapsto> orders_text)) UserProfile_initial))
       = [order_1 ''Processing'']"
    by code_simp
  ultimately show ?thesis by blast
qed

text \<open>
  C2. For every cart and every id, \<^verbatim>\<open>removeFromCart\<close> leaves in the cart exactly the items
  whose id differs from the given one, in their order and unchanged, and stores the JSON
  text of that list under the key \<^verbatim>\<open>cartItems\<close>: read back, the stored text is that list.
  It touches nothing else: the drawer stays as it was, and so does every other key of
  local storage.
\<close>

theorem removeFromCart_filters:
  assumes "removeFromCart i (st, ls) = (st', ls')"
  shows "cartItems st' = filter (\<lambda>item. CartItem.id item \<noteq> i) (cartItems st)
    \<and> subseq (cartItems st') (cartItems st)
    \<and> (\<forall>item. count_list (cartItems st') item
          = (if CartItem.id item \<noteq> i then count_list (cartItems st) item else 0))
    \<and> isCartOpen st' = isCartOpen st
    \<and> getItem ls' ''cartItems''
        = Some (JSON_stringify (JArray (map json_of_CartItem (cartItems st'))))
    \<and> JSON_parse_as (as_array as_CartItem)
          (JSON_stringify (JArray (map json_of_CartItem (cartItems st')))) = Inr (cartItems st')
    \<and> (\<forall>key. key \<noteq> ''cartItems'' \<longrightarrow> getItem ls' key = getItem ls key)"
proof -
  have count: "count_list (filter P xs) x = (if P x then count_list xs x else 0)"
    for P and xs :: "CartItem list" and x
    by (induction xs) auto
  from assms have st': "st' = st\<lparr>cartItems := filter (\<lambda>item. CartItem.id item \<noteq> i) (cartItems st)\<rparr>"
    and ls': "ls' = setItem ls ''cartItems''
      (JSON_stringify (JArray (map json_of_CartItem
         (filter (\<lambda>item. CartItem.id item \<noteq> i) (cartItems st)))))"
    by (simp_all add: removeFromCart_def Let_def del: JSON_stringify.simps map_map)
  show ?thesis
    by (simp add: st' ls' getItem_def setItem_def count read_back_cart
          del: JSON_stringify.simps map_map)
qed

theorem removeFromCart_filters_witness:
  "cartItems (fst (removeFromCart ''a''
      (open_cart [bath_towel 2, hand_towel 1], Map.empty(''orders'' \<mapsto> ''[]''))))
     = [hand_towel 1]
   \<and> getItem (snd (removeFromCart ''a''
      (open_cart [bath_towel 2, hand_towel 1], Map.empty(''orders'' \<mapsto> ''[]'')))) ''cartItems''
     = Some cart_text
   \<and> getItem (snd (removeFromCart ''a''
      (open_cart [bath_towel 2, hand_towel 1], Map.empty(''orders'' \<mapsto> ''[]'')))) ''orders''
     = Some ''[]''"
  (is "?items \<and> ?stored \<and> ?other")
proof -
  have run: "removeFromCart ''a''
      (open_cart [bath_towel 2, hand_towel 1], Map.empty(''orders'' \<mapsto> ''[]''))
    = (fst (removeFromCart ''a''
         (open_cart [bath_towel 2, hand_towel 1], Map.empty(''orders'' \<mapsto> ''[]''))),
       snd (removeFromCart ''a''
         (open_cart [bath_towel 2, hand_towel 1], Map.empty(''orders'' \<mapsto> ''[]''))))"
    by simp
  note fact = removeFromCart_filters [OF run]
  have kept: "filter (\<lambda>item. CartItem.id item \<noteq> ''a'')
      (cartItems (open_cart [bath_towel 2, hand_towel 1])) = [hand_towel 1]"
    by (simp add: open_cart_def bath_towel_def hand_towel_def)
  from fact kept have items: ?items by simp
  have written: "JSON_stringify (JArray (map json_of_CartItem [hand_towel 1])) = cart_text"
    by code_simp
  from fact items written have stored: ?stored by simp
  from fact have other: ?other by (simp add: getItem_def)
  from items stored other show ?thesis by blast
qed

text \<open>
  C3. There is a text that is not JSON for which the effect that loads the orders in
  AllOrders throws the \<^verbatim>\<open>SyntaxError\<close> of \<^verbatim>\<open>JSON.parse\<close> when that text is stored under the key
  \<^verbatim>\<open>orders\<close>; the state keeps its values and no default takes their place. The effect
  does so for every non-empty stored text that \<^verbatim>\<open>JSON.parse\<close> rejects.
\<close>

theorem AllOrders_load_malformed:
  "(\<exists>savedOrders. JSON_parse savedOrders = Inl SyntaxError
      \<and> (\<forall>ls st. AllOrders_load (ls(''orders'' \<mapsto> savedOrders)) st = Throws SyntaxError st))
   \<and> (\<forall>ls st savedOrders.
        getItem ls ''orders'' = Some savedOrders \<and> savedOrders \<noteq> []
        \<and> JSON_parse savedOrders = Inl SyntaxError
        \<longrightarrow> AllOrders_load ls st = Throws SyntaxError st)"
proof -
  have throws: "AllOrders_load ls st = Throws SyntaxError st"
    if "getItem ls ''orders'' = Some savedOrders" "savedOrders \<noteq> []"
      "JSON_parse savedOrders = Inl SyntaxError"
    for ls st savedOrders
    using that by (simp add: AllOrders_load_def JSON_parse_as_def)
  have malformed: "JSON_parse ''towels'' = Inl SyntaxError"
    by code_simp
  have "AllOrders_load (ls(''orders'' \<mapsto> ''towels'')) st = Throws SyntaxError st" for ls st
    by (rule throws [of _ "''towels''"]) (simp_all add: getItem_def malformed)
  with malformed throws show ?thesis by blast
qed

theorem AllOrders_load_malformed_witness:
  "AllOrders_load (Map.empty(''orders'' \<mapsto> ''{id:1}'')) AllOrders_initial
     = Throws SyntaxError AllOrders_initial"
proof -
  have "JSON_parse ''{id:1}'' = Inl SyntaxError"
    by code_simp
  with AllOrders_load_malformed show ?thesis
    by (simp add: getItem_def)
qed

text \<open>
  C4. When local storage holds nothing under the key \<^verbatim>\<open>orders\<close>, the loading effect of
  AllOrders returns and leaves \<open>orders\<close> and \<open>filteredOrders\<close> empty, and the loading
  effect of UserProfile leaves \<open>orders\<close> empty; when it holds nothing under
  \<^verbatim>\<open>customRequests\<close>, the effect of UserProfile leaves \<open>customRequests\<close> empty. When both
  keys hold nothing, the effect of UserProfile returns.
\<close>

theorem missing_data_defaults:
  "(getItem ls ''orders'' = None \<longrightarrow>
      AllOrders_load ls AllOrders_initial = Returns AllOrders_initial)
   \<and> AllOrders_state.orders AllOrders_initial = []
   \<and> filteredOrders AllOrders_initial = []
   \<and> (getItem ls ''orders'' = None \<longrightarrow>
      UserProfile_state.orders
        (state_of (UserProfile_load isAuthenticated user ls UserProfile_initial)) = [])
   \<and> (getItem ls ''customRequests'' = None \<longrightarrow>
      customRequests
        (state_of (UserProfile_load isAuthenticated user ls UserProfile_initial)) = [])
   \<and> (getItem ls ''orders'' = None \<and> getItem ls ''customRequests'' = None \<longrightarrow>
      UserProfile_load isAuthenticated user ls UserProfile_initial
        = Returns UserProfile_initial)"
proof -
  have admin: "AllOrders_load ls AllOrders_initial = Returns AllOrders_initial"
    if "getItem ls ''orders'' = None"
    using that by (simp add: AllOrders_load_def)
  have initial: "AllOrders_state.orders AllOrders_initial = []"
    "filteredOrders AllOrders_initial = []"
    by (simp_all add: AllOrders_initial_def)
  have orders: "UserProfile_state.orders
        (state_of (UserProfile_load isAuthenticated user ls UserProfile_initial)) = []"
    if "getItem ls ''orders'' = None"
    using that
    by (simp add: UserProfile_load_def UserProfile_initial_def or_else_def
          JSON_parse_as_empty_array Let_def
        split: bool.splits option.splits sum.splits)
  have requests: "customRequests
        (state_of (UserProfile_load isAuthenticated user ls UserProfile_initial)) = []"
    if "getItem ls ''customRequests'' = None"
    using that
    by (simp add: UserProfile_load_def UserProfile_initial_def or_else_def
          JSON_parse_as_empty_array Let_def
        split: bool.splits option.splits sum.splits)
  have both: "UserProfile_load isAuthenticated user ls UserProfile_initial
        = Returns UserProfile_initial"
    if "getItem ls ''orders'' = None" "getItem ls ''customRequests'' = None"
    using that
    by (simp add: UserProfile_load_def UserProfile_initial_def or_else_def
          JSON_parse_as_empty_array Let_def
        split: bool.splits option.splits)
  from admin initial orders requests both show ?thesis by blast
qed

theorem missing_data_defaults_witness:
  "AllOrders_load Map.empty AllOrders_initial = Returns AllOrders_initial
   \<and> UserProfile_load True (Some (user_of ''u1'')) Map.empty UserProfile_initial
       = Returns UserProfile_initial
   \<and> customRequests (state_of (UserProfile_load True (Some (user_of ''u1''))
        (Map.empty(''orders'' \<mapsto> ''towels'')) UserProfile_initial)) = []"
  using missing_data_defaults [of Map.empty True "Some (user_of ''u1'')"]
    missing_data_defaults [of "Map.empty(''orders'' \<mapsto> ''towels'')" True "Some (user_of ''u1'')"]
  by (simp add: getItem_def)




text \<open>
  C6. Once Navbar has mounted, and after whatever happens to it while it stays mounted,
  the window has the global function \<^verbatim>\<open>addToCart\<close>; a call of it with an item returns and
  sets the cart to what \<^verbatim>\<open>addItemToCart\<close> makes of that item and the previous cart. After
  the unmount the window has no such function and a call throws a \<^verbatim>\<open>TypeError\<close>. This holds
  for every \<^verbatim>\<open>loadCartFromStorage\<close> and every \<^verbatim>\<open>addItemToCart\<close>.
\<close>

theorem Navbar_addToCart_global:
  assumes "Navbar_mount load w = Returns mounted"
    and "Navbar_run load add evs mounted = (st, win)"
  shows "addToCart win = Some Navbar_addToCart
    \<and> window_addToCart add item (st, win)
        = Returns (st\<lparr>cartItems := fst (add item (cartItems st) (localStorage win))\<rparr>,
                   win\<lparr>localStorage := snd (add item (cartItems st) (localStorage win))\<rparr>)
    \<and> addToCart (snd (Navbar_unmount (st, win))) = None
    \<and> window_addToCart add item (Navbar_unmount (st, win))
        = Throws TypeError (Navbar_unmount (st, win))"
proof -
  from Navbar_mount_window [OF assms(1)] Navbar_run_window [of load add evs mounted] assms(2)
  have attached: "addToCart win = Some Navbar_addToCart" by simp
  then have call: "window_addToCart add item (st, win)
        = Returns (st\<lparr>cartItems := fst (add item (cartItems st) (localStorage win))\<rparr>,
                   win\<lparr>localStorage := snd (add item (cartItems st) (localStorage win))\<rparr>)"
    by (simp add: window_addToCart_def split: prod.splits)
  have removed: "addToCart (snd (Navbar_unmount (st, win))) = None"
    by (simp add: Navbar_unmount_def Navbar_cart_cleanup_def Navbar_storage_cleanup_def)
  then have "window_addToCart add item (Navbar_unmount (st, win))
        = Throws TypeError (Navbar_unmount (st, win))"
    by (cases "Navbar_unmount (st, win)") (simp add: window_addToCart_def)
  with attached call removed show ?thesis by blast
qed

theorem Navbar_addToCart_global_witness:
  "cartItems (fst (state_of (window_addToCart append_item
      \<lparr>NewItem.id = ''a'', name = ''Bath towel'', price = 450, quantity = None, image = ''/a.png''\<rparr>
      (Navbar_run loadCartFromStorage append_item [OpenCart, StorageEvent]
         (state_of (Navbar_mount loadCartFromStorage
            (empty_window\<lparr>localStorage := Map.empty(''cartItems'' \<mapsto> cart_text)\<rparr>)))))))
     = [hand_towel 1, bath_towel 1]"
proof -
  have loaded: "loadCartFromStorage (Map.empty(''cartItems'' \<mapsto> cart_text)) = Inr [hand_towel 1]"
    by code_simp
  have mount: "Navbar_mount loadCartFromStorage
      (empty_window\<lparr>localStorage := Map.empty(''cartItems'' \<mapsto> cart_text)\<rparr>)
    = Returns (state_of (Navbar_mount loadCartFromStorage
        (empty_window\<lparr>localStorage := Map.empty(''cartItems'' \<mapsto> cart_text)\<rparr>)))"
    by (simp add: Navbar_mount_def Navbar_cart_effect_def loaded empty_window_def)
  have run: "Navbar_run loadCartFromStorage append_item [OpenCart, StorageEvent]
      (state_of (Navbar_mount loadCartFromStorage
         (empty_window\<lparr>localStorage := Map.empty(''cartItems'' \<mapsto> cart_text)\<rparr>)))
    = (\<lparr>isCartOpen = True, cartItems = [hand_towel 1]\<rparr>,
       \<lparr>localStorage = Map.empty(''cartItems'' \<mapsto> cart_text),
        addToCart = Some Navbar_addToCart,
        storageListeners = [Navbar_handleStorageChange]\<rparr>)"
    by (simp add: Navbar_run_def Navbar_mount_def Navbar_cart_effect_def Navbar_storage_effect_def
          Navbar_initial_def storage_event_def handleStorageChange_def loaded empty_window_def)
  from Navbar_addToCart_global [OF mount run, of
      "\<lparr>NewItem.id = ''a'', name = ''Bath towel'', price = 450, quantity = None, image = ''/a.png''\<rparr>"]
  show ?thesis
    by (simp add: run append_item_def Let_def bath_towel_def)
qed

text \<open>
  C7. Once Navbar has mounted, and after whatever happens to it while it stays mounted,
  a \<^verbatim>\<open>storage\<close> event reloads the cart from local storage: when the key \<^verbatim>\<open>cartItems\<close> holds
  the JSON text of a cart, the event returns and the cart of the component is that cart;
  when the key holds nothing, the cart is empty. Nothing else of the component or of the
  window changes. (When the key holds a text that is not JSON there is no stored cart:
  the listener throws and the cart stays as it was.) Here \<^verbatim>\<open>loadCartFromStorage\<close> is the loader modelled from the spec;
  \<^verbatim>\<open>addItemToCart\<close> is any function.
\<close>

theorem storage_event_reloads:
  assumes "Navbar_mount loadCartFromStorage w = Returns mounted"
    and "Navbar_run loadCartFromStorage add evs mounted = (st, win)"
  shows "(\<forall>savedCart cart.
            getItem (localStorage win) ''cartItems'' = Some savedCart
            \<and> JSON_parse_as (as_array as_CartItem) savedCart = Inr cart
            \<longrightarrow> storage_event loadCartFromStorage (st, win) = Returns (st\<lparr>cartItems := cart\<rparr>, win))
    \<and> (getItem (localStorage win) ''cartItems'' = None
        \<longrightarrow> storage_event loadCartFromStorage (st, win) = Returns (st\<lparr>cartItems := []\<rparr>, win))
    \<and> (\<forall>savedCart.
            getItem (localStorage win) ''cartItems'' = Some savedCart
            \<and> JSON_parse savedCart = Inl SyntaxError
            \<longrightarrow> storage_event loadCartFromStorage (st, win) = Throws SyntaxError (st, win))"
proof -
  from Navbar_mount_window [OF assms(1)]
    Navbar_run_window [of loadCartFromStorage add evs mounted] assms(2)
  have listening: "storageListeners win \<noteq> []" by simp
  have reload: "storage_event loadCartFromStorage (st, win) = Returns (st\<lparr>cartItems := cart\<rparr>, win)"
    if "loadCartFromStorage (localStorage win) = Inr cart" for cart
    using dispatch_reloads [of loadCartFromStorage win cart "storageListeners win" st] that listening
    by (simp add: storage_event_def)
  have stored: "storage_event loadCartFromStorage (st, win) = Returns (st\<lparr>cartItems := cart\<rparr>, win)"
    if "getItem (localStorage win) ''cartItems'' = Some savedCart"
      "JSON_parse_as (as_array as_CartItem) savedCart = Inr cart"
    for savedCart cart
    using that by (intro reload) (simp add: loadCartFromStorage_def)
  have missing: "storage_event loadCartFromStorage (st, win) = Returns (st\<lparr>cartItems := []\<rparr>, win)"
    if "getItem (localStorage win) ''cartItems'' = None"
    using that by (intro reload) (simp add: loadCartFromStorage_def)
  obtain h hs where listeners: "storageListeners win = h # hs"
    using listening by (cases "storageListeners win") auto
  have malformed: "storage_event loadCartFromStorage (st, win) = Throws SyntaxError (st, win)"
    if "getItem (localStorage win) ''cartItems'' = Some savedCart"
      "JSON_parse savedCart = Inl SyntaxError"
    for savedCart
    using that
    by (cases h)
      (simp add: storage_event_def listeners handleStorageChange_def loadCartFromStorage_def
         JSON_parse_as_def)
  from stored missing malformed show ?thesis by blast
qed

theorem storage_event_reloads_witness:
  "cartItems (fst (state_of (Navbar_mount loadCartFromStorage empty_window))) = []
   \<and> cartItems (fst (state_of (storage_event loadCartFromStorage
        (Navbar_initial,
         \<lparr>localStorage = Map.empty(''cartItems'' \<mapsto> cart_text),
          addToCart = Some Navbar_addToCart,
          storageListeners = [Navbar_handleStorageChange]\<rparr>))))
       = [hand_towel 1]"
  (is "?mounted \<and> ?reloaded")
proof -
  have loaded: "JSON_parse_as (as_array as_CartItem) cart_text = Inr [hand_towel 1]"
    by code_simp
  have mount: "Navbar_mount loadCartFromStorage empty_window
    = Returns (Navbar_initial,
        \<lparr>localStorage = Map.empty, addToCart = Some Navbar_addToCart,
         storageListeners = [Navbar_handleStorageChange]\<rparr>)"
    by (simp add: Navbar_mount_def Navbar_cart_effect_def Navbar_storage_effect_def
          Navbar_initial_def loadCartFromStorage_def getItem_def empty_window_def)
  have run: "Navbar_run loadCartFromStorage append_item [OtherDocumentWrites ''cartItems'' cart_text]
      (Navbar_initial,
        \<lparr>localStorage = Map.empty, addToCart = Some Navbar_addToCart,
         storageListeners = [Navbar_handleStorageChange]\<rparr>)
    = (Navbar_initial\<lparr>cartItems := [hand_towel 1]\<rparr>,
       \<lparr>localStorage = Map.empty(''cartItems'' \<mapsto> cart_text),
        addToCart = Some Navbar_addToCart,
        storageListeners = [Navbar_handleStorageChange]\<rparr>)"
    by (simp add: Navbar_run_def storage_event_def handleStorageChange_def
          loadCartFromStorage_def getItem_def setItem_def loaded)
  have mounted: ?mounted by (simp add: mount Navbar_initial_def)
  from storage_event_reloads [OF mount run] loaded
  have "storage_event loadCartFromStorage
      (Navbar_initial\<lparr>cartItems := [hand_towel 1]\<rparr>,
       \<lparr>localStorage = Map.empty(''cartItems'' \<mapsto> cart_text),
        addToCart = Some Navbar_addToCart,
        storageListeners = [Navbar_handleStorageChange]\<rparr>)
    = Returns (Navbar_initial\<lparr>cartItems := [hand_towel 1]\<rparr>,
       \<lparr>localStorage = Map.empty(''cartItems'' \<mapsto> cart_text),
        addToCart = Some Navbar_addToCart,
        storageListeners = [Navbar_handleStorageChange]\<rparr>)"
    by (simp add: getItem_def)
  then have reloaded: ?reloaded
    by (simp add: storage_event_def handleStorageChange_def loadCartFromStorage_def
          getItem_def loaded split: sum.splits)
  from mounted reloaded show ?thesis by blast
qed






text \<open>
  C10. For every list of orders and every search term, \<^verbatim>\<open>handleSearch\<close> displays all
  orders when the term is empty or consists of white space only, and otherwise exactly
  the orders whose id in lower case contains the term in lower case, as it was typed
  (with its leading and trailing white space), as a run of consecutive characters. In
  both cases the displayed orders are a selection of the orders in their order, the list
  of all orders is unchanged, and the search term is the one typed.
\<close>

theorem handleSearch_filters:
  "((\<forall>c \<in> set term. is_space c) \<longrightarrow>
      filteredOrders (handleSearch term st) = AllOrders_state.orders st)
   \<and> ((\<exists>c \<in> set term. \<not> is_space c) \<longrightarrow>
      filteredOrders (handleSearch term st)
        = filter (\<lambda>order. \<exists>before after.
                     toLowerCase (Order.id order) = before @ toLowerCase term @ after)
            (AllOrders_state.orders st))
   \<and> subseq (filteredOrders (handleSearch term st)) (AllOrders_state.orders st)
   \<and> AllOrders_state.orders (handleSearch term st) = AllOrders_state.orders st
   \<and> searchTerm (handleSearch term st) = term"
proof -
  have blank: "filteredOrders (handleSearch term st) = AllOrders_state.orders st"
    if "\<forall>c \<in> set term. is_space c"
    using that by (simp add: handleSearch_def trim_empty_iff)
  have typed: "filteredOrders (handleSearch term st)
        = filter (\<lambda>order. \<exists>before after.
                     toLowerCase (Order.id order) = before @ toLowerCase term @ after)
            (AllOrders_state.orders st)"
    if "\<exists>c \<in> set term. \<not> is_space c"
  proof -
    from that have "trim term \<noteq> []" by (simp add: trim_empty_iff)
    then show ?thesis by (simp add: handleSearch_def Let_def str_includes_iff)
  qed
  have selection: "subseq (filteredOrders (handleSearch term st)) (AllOrders_state.orders st)"
    by (simp add: handleSearch_def Let_def)
  have kept: "AllOrders_state.orders (handleSearch term st) = AllOrders_state.orders st"
    and typed_term: "searchTerm (handleSearch term st) = term"
    by (simp_all add: handleSearch_def Let_def)
  from blank typed selection kept typed_term show ?thesis by blast
qed

theorem handleSearch_filters_witness:
  "filteredOrders (handleSearch ''  ''
      \<lparr>AllOrders_state.orders = [order_1 ''Processing'', order_2 ''Shipped''],
       filteredOrders = [], searchTerm = []\<rparr>)
     = [order_1 ''Processing'', order_2 ''Shipped'']
   \<and> filteredOrders (handleSearch ''Ord-1''
      \<lparr>AllOrders_state.orders = [order_1 ''Processing'', order_2 ''Shipped''],
       filteredOrders = [], searchTerm = []\<rparr>)
     = [order_1 ''Processing'']"
  (is "?blank \<and> ?typed")
proof -
  have space: "\<forall>c \<in> set ''  ''. is_space c"
    by (simp add: is_space_def)
  have letter: "\<exists>c \<in> set ''Ord-1''. \<not> is_space c"
    by (simp add: is_space_def)
  from space
    handleSearch_filters [of "''  ''"
      "\<lparr>AllOrders_state.orders = [order_1 ''Processing'', order_2 ''Shipped''],
        filteredOrders = [], searchTerm = []\<rparr>"]
  have blank: ?blank by simp
  from letter
    handleSearch_filters [of "''Ord-1''"
      "\<lparr>AllOrders_state.orders = [order_1 ''Processing'', order_2 ''Shipped''],
        filteredOrders = [], searchTerm = []\<rparr>"]
  have "filteredOrders (handleSearch ''Ord-1''
      \<lparr>AllOrders_state.orders = [order_1 ''Processing'', order_2 ''Shipped''],
       filteredOrders = [], searchTerm = []\<rparr>)
    = filter (\<lambda>order. str_includes (toLowerCase (Order.id order)) (toLowerCase ''Ord-1''))
        [order_1 ''Processing'', order_2 ''Shipped'']"
    unfolding str_includes_iff by simp
  moreover have "filter (\<lambda>order. str_includes (toLowerCase (Order.id order)) (toLowerCase ''Ord-1''))
        [order_1 ''Processing'', order_2 ''Shipped''] = [order_1 ''Processing'' :: json Order]"
    by code_simp
  ultimately have typed: ?typed by simp
  from blank typed show ?thesis by blast
qed

end
